theory Spec2Isabelle
  imports Main
begin

section \<open>Paths (the part of pathlib that DeepLabCut/convert.py uses)\<close>

text \<open>
  A \<^verbatim>\<open>pathlib.Path\<close> (POSIX flavour) is an anchor and a list of components.
  pathlib keeps every component non-empty, free of the separator and different from
  \<^verbatim>\<open>.\<close>; \<open>valid_path\<close> states this invariant.
\<close>

record path =
  absolute :: bool
  parts :: "string list"

definition valid_path :: "path \<Rightarrow> bool" where
  "valid_path p = list_all (\<lambda>c. c \<noteq> [] \<and> CHR ''/'' \<notin> set c \<and> c \<noteq> ''.'') (parts p)"

text \<open>\<^verbatim>\<open>Path.name\<close>: the final component, the empty string when there is none.\<close>

definition path_name :: "path \<Rightarrow> string" where
  "path_name p = (if parts p = [] then [] else last (parts p))"

text \<open>\<^verbatim>\<open>Path.parent\<close>: the path without its final component; the anchor is its own parent.\<close>

definition parent :: "path \<Rightarrow> path" where
  "parent p = p\<lparr>parts := butlast (parts p)\<rparr>"

text \<open>\<^verbatim>\<open>str.rfind(c)\<close>: the index of the last occurrence of \<open>c\<close>, or \<open>-1\<close>.\<close>

fun rfind :: "char \<Rightarrow> string \<Rightarrow> int" where
  "rfind c [] = -1"
| "rfind c (x # xs) =
     (let r = rfind c xs in if 0 \<le> r then r + 1 else if x = c then 0 else -1)"

text \<open>
  \<^verbatim>\<open>Path.suffix\<close> and \<^verbatim>\<open>Path.stem\<close>, as pathlib defines them up to Python 3.13:
  \<^verbatim>\<open>i = name.rfind('.'); if 0 < i < len(name) - 1: name[i:] / name[:i] else '' / name\<close>.
\<close>

definition path_suffix :: "path \<Rightarrow> string" where
  "path_suffix p =
     (let name = path_name p; i = rfind CHR ''.'' name
      in if 0 < i \<and> i < int (length name) - 1 then drop (nat i) name else [])"

definition stem :: "path \<Rightarrow> string" where
  "stem p =
     (let name = path_name p; i = rfind CHR ''.'' name
      in if 0 < i \<and> i < int (length name) - 1 then take (nat i) name else name)"

text \<open>Python's \<^verbatim>\<open>sub in s\<close> on strings: \<open>sub\<close> occurs in \<open>s\<close> as a contiguous block.\<close>

fun starts_with :: "string \<Rightarrow> string \<Rightarrow> bool" where
  "starts_with [] s = True"
| "starts_with (a # as) [] = False"
| "starts_with (a # as) (c # cs) = (a = c \<and> starts_with as cs)"

fun py_in :: "string \<Rightarrow> string \<Rightarrow> bool" where
  "py_in sub [] = (sub = [])"
| "py_in sub (c # cs) = (starts_with sub (c # cs) \<or> py_in sub cs)"

section \<open>The classifier\<close>

definition DLC_OUTPUT_SUFFIX :: string where
  "DLC_OUTPUT_SUFFIX = ''.h5''"

definition is_DLC_output :: "path \<Rightarrow> bool" where
  "is_DLC_output filepath =
     (if path_suffix filepath \<noteq> DLC_OUTPUT_SUFFIX then False
      else if \<not> py_in ''DLC_'' (path_name filepath) \<and> \<not> py_in ''DeepLabCut_'' (path_name filepath)
        then False
      else if \<not> py_in ''shuffle'' (path_name filepath) then False
      else True)"

section \<open>Exceptions and results\<close>

text \<open>
  The exceptions that can occur. \<open>KeyError\<close> and \<open>ValueError\<close> carry their argument; the
  others carry the text that \<^verbatim>\<open>str(e)\<close> renders. \<open>ExternalError\<close> is any other subclass
  of \<^verbatim>\<open>Exception\<close> raised by pandas.
\<close>

datatype py_exception =
    KeyError string
  | ValueError string
  | NotImplementedError
  | FileExistsError string
  | FileNotFoundError string
  | NotADirectoryError string
  | IsADirectoryError string
  | OSError string
  | ExternalError string

text \<open>
  \<^verbatim>\<open>repr\<close> of a string, for text without control characters: double quotes when the
  text has a single quote and no double quote, single quotes otherwise.
\<close>

definition py_escape :: "char \<Rightarrow> string \<Rightarrow> string" where
  "py_escape q s = concat (map (\<lambda>c. if c = CHR 0x5C \<or> c = q then [CHR 0x5C, c] else [c]) s)"

definition py_repr :: "string \<Rightarrow> string" where
  "py_repr s =
     (if CHR 0x27 \<in> set s \<and> CHR 0x22 \<notin> set s
      then [CHR 0x22] @ py_escape CHR 0x22 s @ [CHR 0x22]
      else [CHR 0x27] @ py_escape CHR 0x27 s @ [CHR 0x27])"

fun exn_str :: "py_exception \<Rightarrow> string" where
  "exn_str (KeyError a) = py_repr a"
| "exn_str (ValueError a) = a"
| "exn_str NotImplementedError = []"
| "exn_str (FileExistsError m) = m"
| "exn_str (FileNotFoundError m) = m"
| "exn_str (NotADirectoryError m) = m"
| "exn_str (IsADirectoryError m) = m"
| "exn_str (OSError m) = m"
| "exn_str (ExternalError m) = m"

datatype Status = SUCCESS | SKIPPED | FAILED

record Result =
  dstfile :: string
  status :: Status
  message :: "string option"

text \<open>\<^verbatim>\<open>str(path)\<close>.\<close>

fun join_sep :: "string list \<Rightarrow> string" where
  "join_sep [] = []"
| "join_sep [c] = c"
| "join_sep (c # cs) = c @ ''/'' @ join_sep cs"

definition path_str :: "path \<Rightarrow> string" where
  "path_str p =
     (if absolute p then ''/'' @ join_sep (parts p)
      else if parts p = [] then ''.'' else join_sep (parts p))"

definition success :: "path \<Rightarrow> Result" where
  "success d = \<lparr>dstfile = path_str d, status = SUCCESS, message = None\<rparr>"

definition skipped :: "path \<Rightarrow> string \<Rightarrow> Result" where
  "skipped d m = \<lparr>dstfile = path_str d, status = SKIPPED, message = Some m\<rparr>"

definition failed :: "path \<Rightarrow> string \<Rightarrow> Result" where
  "failed d m = \<lparr>dstfile = path_str d, status = FAILED, message = Some m\<rparr>"

definition is_success :: "Result \<Rightarrow> bool" where
  "is_success r = (status r = SUCCESS)"

definition is_skipped :: "Result \<Rightarrow> bool" where
  "is_skipped r = (status r = SKIPPED)"

definition is_failed :: "Result \<Rightarrow> bool" where
  "is_failed r = (status r = FAILED)"

section \<open>Conversions and the registry\<close>

text \<open>
  \<^verbatim>\<open>Path.with_name(name)\<close>: a path without a final component and an invalid new name
  raise \<^verbatim>\<open>ValueError\<close>.
\<close>

definition with_name :: "path \<Rightarrow> string \<Rightarrow> py_exception + path" where
  "with_name p name =
     (if path_name p = [] then
        Inl (ValueError (''PosixPath('' @ py_repr (path_str p) @ '') has an empty name''))
      else if name = [] \<or> CHR ''/'' \<in> set name \<or> name = ''.'' then
        Inl (ValueError (''Invalid name '' @ py_repr name))
      else Inr (p\<lparr>parts := butlast (parts p) @ [name]\<rparr>))"

text \<open>The classes: the base class, whose operations are not implemented, and the CSV variant.\<close>

datatype conversion_class = Conversion | CSVConversion

fun conversion_dstfile :: "conversion_class \<Rightarrow> path \<Rightarrow> py_exception + path" where
  "conversion_dstfile Conversion srcfile = Inl NotImplementedError"
| "conversion_dstfile CSVConversion srcfile = with_name srcfile (stem srcfile @ ''.csv'')"

definition FORMATS :: "string \<rightharpoonup> conversion_class" where
  "FORMATS = [''csv'' \<mapsto> CSVConversion]"

section \<open>The file system, the streams and pandas\<close>

text \<open>
  The file system is the set of directories and the contents of the regular files, keyed
  by path as written (no resolution of \<^verbatim>\<open>..\<close>, of links or of the working directory).
  A path without components (the root, the working directory) is a directory.
\<close>

type_synonym content = string

record filesystem =
  dirs :: "path set"
  files :: "path \<rightharpoonup> content"

definition is_dir :: "filesystem \<Rightarrow> path \<Rightarrow> bool" where
  "is_dir f p = (parts p = [] \<or> p \<in> dirs f)"

definition path_exists :: "filesystem \<Rightarrow> path \<Rightarrow> bool" where
  "path_exists f p = (is_dir f p \<or> files f p \<noteq> None)"

text \<open>
  What the program does to the outside: the calls it makes on the file system, in order,
  and what it prints. \<^verbatim>\<open>print_exc\<close> writes the traceback of the exception being handled.
\<close>

datatype fs_call = Exists path | Mkdir path | ReadHdf path | ToCsv path

datatype err_item = is_Traceback: Traceback py_exception | is_Line: Line string

record world =
  filesys :: filesystem
  stdout :: "string list"
  stderr :: "err_item list"
  calls :: "fs_call list"

definition called :: "fs_call \<Rightarrow> world \<Rightarrow> world" where
  "called c w = w\<lparr>calls := calls w @ [c]\<rparr>"

text \<open>\<^verbatim>\<open>Path.exists()\<close>.\<close>

definition exists_op :: "path \<Rightarrow> world \<Rightarrow> bool \<times> world" where
  "exists_op p w = (path_exists (filesys w) p, called (Exists p) w)"

text \<open>
  \<^verbatim>\<open>Path.mkdir(parents=True)\<close>: the missing ancestors are created from the outermost
  inwards; a regular file on the way is \<^verbatim>\<open>NotADirectoryError\<close>, and the path itself
  existing is \<^verbatim>\<open>FileExistsError\<close> (\<^verbatim>\<open>exist_ok\<close> is false).
\<close>

fun nonempty_prefixes :: "'a list \<Rightarrow> 'a list list" where
  "nonempty_prefixes [] = []"
| "nonempty_prefixes (x # xs) = [x] # map ((#) x) (nonempty_prefixes xs)"

definition ancestors :: "path \<Rightarrow> path list" where
  "ancestors p = map (\<lambda>cs. p\<lparr>parts := cs\<rparr>) (nonempty_prefixes (parts p))"

fun mkdir_chain :: "path \<Rightarrow> filesystem \<Rightarrow> path list \<Rightarrow> py_exception + filesystem" where
  "mkdir_chain p f [] = Inl (FileExistsError (''[Errno 17] File exists: '' @ py_repr (path_str p)))"
| "mkdir_chain p f [a] =
     (if path_exists f a then
        Inl (FileExistsError (''[Errno 17] File exists: '' @ py_repr (path_str p)))
      else Inr (f\<lparr>dirs := insert a (dirs f)\<rparr>))"
| "mkdir_chain p f (a # b # rest) =
     (if is_dir f a then mkdir_chain p f (b # rest)
      else if files f a \<noteq> None then
        Inl (NotADirectoryError (''[Errno 20] Not a directory: '' @ py_repr (path_str p)))
      else mkdir_chain p (f\<lparr>dirs := insert a (dirs f)\<rparr>) (b # rest))"

definition mkdir_parents :: "path \<Rightarrow> world \<Rightarrow> (py_exception + unit) \<times> world" where
  "mkdir_parents p w =
     (case mkdir_chain p (filesys w) (ancestors p) of
        Inl e \<Rightarrow> (Inl e, called (Mkdir p) w)
      | Inr f \<Rightarrow> (Inr (), called (Mkdir p) (w\<lparr>filesys := f\<rparr>)))"

text \<open>
  pandas is a collaborator: how the content of an HDF5 file becomes a table and how a
  table becomes CSV text (\<^verbatim>\<open>header=True, index=False\<close>) are parameters, and either may
  raise. A file left partially written by a failed write is not modelled.
\<close>

record 'tab pandas =
  read_hdf :: "content \<Rightarrow> py_exception + 'tab"
  to_csv :: "'tab \<Rightarrow> py_exception + content"

definition pd_read_hdf :: "'tab pandas \<Rightarrow> path \<Rightarrow> world \<Rightarrow> (py_exception + 'tab) \<times> world" where
  "pd_read_hdf pd srcfile w =
     (case files (filesys w) srcfile of
        None \<Rightarrow>
          (Inl (FileNotFoundError (''File '' @ path_str srcfile @ '' does not exist'')),
           called (ReadHdf srcfile) w)
      | Some c \<Rightarrow> (read_hdf pd c, called (ReadHdf srcfile) w))"

definition tab_to_csv :: "'tab pandas \<Rightarrow> 'tab \<Rightarrow> path \<Rightarrow> world \<Rightarrow> (py_exception + unit) \<times> world" where
  "tab_to_csv pd tab dst w =
     (if \<not> is_dir (filesys w) (parent dst) then
        (Inl (OSError (''Cannot save file into a non-existent directory: ''
                @ py_repr (path_str (parent dst)))),
         called (ToCsv dst) w)
      else if is_dir (filesys w) dst then
        (Inl (IsADirectoryError (''[Errno 21] Is a directory: '' @ py_repr (path_str dst))),
         called (ToCsv dst) w)
      else
        (case to_csv pd tab of
           Inl e \<Rightarrow> (Inl e, called (ToCsv dst) w)
         | Inr text \<Rightarrow>
             (Inr (),
              called (ToCsv dst)
                (w\<lparr>filesys := (filesys w)\<lparr>files := (files (filesys w))(dst \<mapsto> text)\<rparr>\<rparr>))))"

fun conversion_convert ::
  "conversion_class \<Rightarrow> 'tab pandas \<Rightarrow> 'tab \<Rightarrow> path \<Rightarrow> world \<Rightarrow> (py_exception + unit) \<times> world" where
  "conversion_convert Conversion pd tab dst w = (Inl NotImplementedError, w)"
| "conversion_convert CSVConversion pd tab dst w = tab_to_csv pd tab dst w"

section \<open>convert\<close>

text \<open>
  \<^verbatim>\<open>Path(dstdir) / dstfile.name\<close>: the name is one component (it is the name of a path),
  so the join appends it.
\<close>

definition joinpath :: "path \<Rightarrow> string \<Rightarrow> path" where
  "joinpath d n = d\<lparr>parts := parts d @ [n]\<rparr>"

text \<open>\<^verbatim>\<open>if dstdir is not None: dstfile = Path(dstdir) / dstfile.name\<close>.\<close>

definition rebase :: "path option \<Rightarrow> path \<Rightarrow> path" where
  "rebase dstdir dst0 = (case dstdir of None \<Rightarrow> dst0 | Some d \<Rightarrow> joinpath d (path_name dst0))"

text \<open>The last two statements of the \<^verbatim>\<open>try\<close> block and its \<^verbatim>\<open>return\<close>.\<close>

definition load_and_write ::
  "'tab pandas \<Rightarrow> conversion_class \<Rightarrow> path \<Rightarrow> path \<Rightarrow> world \<Rightarrow> (py_exception + Result) \<times> world" where
  "load_and_write pd conversion srcfile dst w =
     (case pd_read_hdf pd srcfile w of
        (Inl e, w1) \<Rightarrow> (Inl e, w1)
      | (Inr tab, w1) \<Rightarrow>
          (case conversion_convert conversion pd tab dst w1 of
             (Inl e, w2) \<Rightarrow> (Inl e, w2)
           | (Inr u, w2) \<Rightarrow> (Inr (success dst), w2)))"

text \<open>The \<^verbatim>\<open>try\<close> block: \<open>Inl e\<close> is the exception \<open>e\<close> raised inside it.\<close>

definition try_block ::
  "'tab pandas \<Rightarrow> conversion_class \<Rightarrow> path \<Rightarrow> path \<Rightarrow> bool \<Rightarrow> world \<Rightarrow> (py_exception + Result) \<times> world" where
  "try_block pd conversion srcfile dst overwrite w =
     (case exists_op (parent dst) w of
        (False, w1) \<Rightarrow>
          (case mkdir_parents (parent dst) w1 of
             (Inl e, w2) \<Rightarrow> (Inl e, w2)
           | (Inr u, w2) \<Rightarrow> load_and_write pd conversion srcfile dst w2)
      | (True, w1) \<Rightarrow>
          (case exists_op dst w1 of
             (de, w2) \<Rightarrow>
               if de \<and> \<not> overwrite then (Inr (skipped dst ''the converted file already exists''), w2)
               else load_and_write pd conversion srcfile dst w2))"

text \<open>
  \<open>convert\<close>: \<open>Inl e\<close> is the exception that leaves the function, \<open>Inr r\<close> the result it
  returns. The handler catches every exception of the \<^verbatim>\<open>try\<close> block.
\<close>

definition convert ::
  "'tab pandas \<Rightarrow> path \<Rightarrow> string \<Rightarrow> path option \<Rightarrow> bool \<Rightarrow> world \<Rightarrow> (py_exception + Result) \<times> world" where
  "convert pd srcfile fileformat dstdir overwrite w =
     (case FORMATS fileformat of
        None \<Rightarrow>
          (Inl (KeyError (''file format not found: '' @ [CHR 0x27] @ fileformat @ [CHR 0x27])), w)
      | Some Converter \<Rightarrow>
          (case conversion_dstfile Converter srcfile of
             Inl e \<Rightarrow> (Inl e, w)
           | Inr dst0 \<Rightarrow>
               (let dst = rebase dstdir dst0
                in case try_block pd Converter srcfile dst overwrite w of
                     (Inl e, w') \<Rightarrow>
                       (Inr (failed dst (''failed to convert: '' @ exn_str e)),
                        w'\<lparr>stderr := stderr w' @ [Traceback e]\<rparr>)
                   | (Inr r, w') \<Rightarrow> (Inr r, w'))))"

section \<open>convert_recursive\<close>

text \<open>
  The tree the walk sees: what \<^verbatim>\<open>iterdir\<close> lists in each directory, in its order, and
  for which entries \<^verbatim>\<open>is_dir\<close> holds.
\<close>

datatype entry = File string | Dir string "entry list"

text \<open>The two \<^verbatim>\<open>print\<close> calls.\<close>

definition report :: "path \<Rightarrow> Result \<Rightarrow> world \<Rightarrow> world" where
  "report child result w =
     (if is_success result then w\<lparr>stdout := stdout w @ [path_name child]\<rparr>
      else w\<lparr>stderr := stderr w @
             [Line (''***'' @ (case message result of None \<Rightarrow> ''None'' | Some m \<Rightarrow> m)
                    @ '': '' @ path_name child)]\<rparr>)"

fun recurse_single ::
  "'tab pandas \<Rightarrow> string \<Rightarrow> path option \<Rightarrow> bool \<Rightarrow> path \<Rightarrow> entry list \<Rightarrow> world
     \<Rightarrow> py_exception option \<times> world" where
  "recurse_single pd fileformat dstdir overwrite current [] w = (None, w)"
| "recurse_single pd fileformat dstdir overwrite current (Dir n cs # rest) w =
     (case recurse_single pd fileformat dstdir overwrite (joinpath current n) cs w of
        (Some e, w') \<Rightarrow> (Some e, w')
      | (None, w') \<Rightarrow> recurse_single pd fileformat dstdir overwrite current rest w')"
| "recurse_single pd fileformat dstdir overwrite current (File n # rest) w =
     (if is_DLC_output (joinpath current n) then
        (case convert pd (joinpath current n) fileformat dstdir overwrite w of
           (Inl e, w') \<Rightarrow> (Some e, w')
         | (Inr result, w') \<Rightarrow>
             recurse_single pd fileformat dstdir overwrite current rest
               (report (joinpath current n) result w'))
      else recurse_single pd fileformat dstdir overwrite current rest w)"

definition convert_recursive ::
  "'tab pandas \<Rightarrow> path option \<Rightarrow> string \<Rightarrow> path option \<Rightarrow> bool \<Rightarrow> entry list \<Rightarrow> world
     \<Rightarrow> py_exception option \<times> world" where
  "convert_recursive pd directory fileformat dstdir overwrite tree w =
     recurse_single pd fileformat dstdir overwrite
       (case directory of None \<Rightarrow> \<lparr>absolute = False, parts = []\<rparr> | Some d \<Rightarrow> d) tree w"

text \<open>
  A listing as \<^verbatim>\<open>iterdir\<close> gives it: no file name contains the separator.
\<close>

fun listing_ok :: "entry \<Rightarrow> bool" where
  "listing_ok (File n) = (CHR ''/'' \<notin> set n)"
| "listing_ok (Dir n cs) = (\<forall>c\<in>set cs. listing_ok c)"

text \<open>The number of regular files under \<open>current\<close> that the classifier matches.\<close>

fun matched_files :: "path \<Rightarrow> entry list \<Rightarrow> nat" where
  "matched_files current [] = 0"
| "matched_files current (Dir n cs # rest) =
     matched_files (joinpath current n) cs + matched_files current rest"
| "matched_files current (File n # rest) =
     (if is_DLC_output (joinpath current n) then 1 else 0) + matched_files current rest"

text \<open>The lines printed so far, on both streams (tracebacks apart).\<close>

definition printed_lines :: "world \<Rightarrow> nat" where
  "printed_lines w = length (stdout w) + length (filter is_Line (stderr w))"

section \<open>A small installation, for concrete runs\<close>

text \<open>
  A pandas whose tables are strings: content \<^verbatim>\<open>bad\<close> does not load, the table
  \<^verbatim>\<open>nan\<close> does not serialise.
\<close>

definition pd0 :: "string pandas" where
  "pd0 = \<lparr>read_hdf = (\<lambda>c. if c = ''bad'' then Inl (ExternalError ''not an HDF5 file'') else Inr c),
          to_csv = (\<lambda>t. if t = ''nan'' then Inl (ExternalError ''cannot serialise'') else Inr (''x,y;'' @ t))\<rparr>"

definition videos :: path where
  "videos = \<lparr>absolute = False, parts = [''videos'']\<rparr>"

definition src0 :: path where
  "src0 = \<lparr>absolute = False, parts = [''videos'', ''m1_DLC_shuffle1.h5'']\<rparr>"

definition dst0 :: path where
  "dst0 = \<lparr>absolute = False, parts = [''videos'', ''m1_DLC_shuffle1.csv'']\<rparr>"

definition out_dir :: path where
  "out_dir = \<lparr>absolute = False, parts = [''out'', ''csv'']\<rparr>"

definition out_file :: path where
  "out_file = \<lparr>absolute = False, parts = [''out'']\<rparr>"

definition src_bad :: path where
  "src_bad = \<lparr>absolute = False, parts = [''videos'', ''m2_DLC_shuffle1.h5'']\<rparr>"

text \<open>
  \<open>w0\<close>: only the source exists. \<open>w1\<close>: the destination exists too. \<open>w2\<close>: a regular file
  named \<^verbatim>\<open>out\<close> is where the directory \<^verbatim>\<open>out/csv\<close> would go. \<open>w3\<close>: a second source,
  which does not load.
\<close>

definition w2 :: world where
  "w2 = \<lparr>filesys = \<lparr>dirs = {videos}, files = [src0 \<mapsto> ''t1'', out_file \<mapsto> ''x'']\<rparr>,
         stdout = [], stderr = [], calls = []\<rparr>"

definition w3 :: world where
  "w3 = \<lparr>filesys = \<lparr>dirs = {videos}, files = [src0 \<mapsto> ''t1'', src_bad \<mapsto> ''bad'']\<rparr>,
         stdout = [], stderr = [], calls = []\<rparr>"

text \<open>\<open>w4\<close>: the source loads as the table \<^verbatim>\<open>nan\<close>, which does not serialise.\<close>

definition w4 :: world where
  "w4 = \<lparr>filesys = \<lparr>dirs = {videos}, files = [src0 \<mapsto> ''nan'']\<rparr>,
         stdout = [], stderr = [], calls = []\<rparr>"

definition dst_bad :: path where
  "dst_bad = \<lparr>absolute = False, parts = [''videos'', ''m2_DLC_shuffle1.csv'']\<rparr>"

definition tree0 :: "entry list" where
  "tree0 = [File ''notes.txt'',
            Dir ''videos'' [File ''m1_DLC_shuffle1.h5'', File ''m2_DLC_shuffle1.h5'',
                            File ''m1.mp4'', File ''m1_DLC_shuffle1.csv'']]"


definition w0 :: world where
  "w0 = \<lparr>filesys = \<lparr>dirs = {videos}, files = [src0 \<mapsto> ''t1'']\<rparr>,
         stdout = [], stderr = [], calls = []\<rparr>"

definition w1 :: world where
  "w1 = \<lparr>filesys = \<lparr>dirs = {videos}, files = [src0 \<mapsto> ''t1'', dst0 \<mapsto> ''old'']\<rparr>,
         stdout = [], stderr = [], calls = []\<rparr>"

section \<open>Facts about strings\<close>

lemma starts_with_iff: "starts_with a s \<longleftrightarrow> (\<exists>v. s = a @ v)"
  by (induction a s rule: starts_with.induct) auto

lemma py_in_iff: "py_in sub s \<longleftrightarrow> (\<exists>u v. s = u @ sub @ v)"
proof (induction s)
  case Nil
  then show ?case by auto
next
  case (Cons c cs)
  show ?case
  proof
    assume "py_in sub (c # cs)"
    then consider "starts_with sub (c # cs)" | "py_in sub cs" by auto
    then show "\<exists>u v. c # cs = u @ sub @ v"
    proof cases
      case 1
      then obtain v where "c # cs = sub @ v" by (auto simp: starts_with_iff)
      then have "c # cs = [] @ sub @ v" by simp
      then show ?thesis by blast
    next
      case 2
      then obtain u v where "cs = u @ sub @ v" using Cons.IH by blast
      then have "c # cs = (c # u) @ sub @ v" by simp
      then show ?thesis by blast
    qed
  next
    assume "\<exists>u v. c # cs = u @ sub @ v"
    then obtain u v where uv: "c # cs = u @ sub @ v" by blast
    show "py_in sub (c # cs)"
    proof (cases u)
      case Nil
      with uv have "starts_with sub (c # cs)" by (auto simp: starts_with_iff)
      then show ?thesis by simp
    next
      case (Cons a u')
      with uv have "cs = u' @ sub @ v" by simp
      then have "py_in sub cs" using Cons.IH by blast
      then show ?thesis by simp
    qed
  qed
qed

section \<open>The classifier's contract\<close>

text \<open>
  C1. \<open>is_DLC_output p\<close> holds exactly when the suffix of \<open>p\<close> is \<^verbatim>\<open>.h5\<close>, the file
  name contains \<^verbatim>\<open>DLC_\<close> or \<^verbatim>\<open>DeepLabCut_\<close> as a substring, and the file name
  contains \<^verbatim>\<open>shuffle\<close> as a substring.
\<close>

theorem is_DLC_output_iff:
  "is_DLC_output p \<longleftrightarrow>
     path_suffix p = ''.h5''
     \<and> ((\<exists>u v. path_name p = u @ ''DLC_'' @ v) \<or> (\<exists>u v. path_name p = u @ ''DeepLabCut_'' @ v))
     \<and> (\<exists>u v. path_name p = u @ ''shuffle'' @ v)"
  unfolding is_DLC_output_def DLC_OUTPUT_SUFFIX_def py_in_iff by auto

theorem is_DLC_output_iff_witness:
  "is_DLC_output \<lparr>absolute = False, parts = [''videos'', ''x_DLC_shuffle1.h5'']\<rparr>
   \<and> \<not> is_DLC_output \<lparr>absolute = False, parts = [''videos'', ''x_DLC_shuffle1.csv'']\<rparr>
   \<and> \<not> is_DLC_output \<lparr>absolute = False, parts = [''videos'', ''x_shuffle1.h5'']\<rparr>
   \<and> \<not> is_DLC_output \<lparr>absolute = False, parts = [''videos'', ''x_DLC_1.h5'']\<rparr>"
proof -
  let ?p = "\<lparr>absolute = False, parts = [''videos'', ''x_DLC_shuffle1.h5'']\<rparr>"
  have sfx: "path_suffix ?p = ''.h5''"
    by (simp add: path_suffix_def path_name_def)
  have nm: "path_name ?p = ''x_'' @ ''DLC_'' @ ''shuffle1.h5''"
    "path_name ?p = ''x_DLC_'' @ ''shuffle'' @ ''1.h5''"
    by (simp_all add: path_name_def)
  have "is_DLC_output ?p"
    using is_DLC_output_iff [of ?p] sfx nm by blast
  moreover have "\<not> is_DLC_output \<lparr>absolute = False, parts = [''videos'', ''x_DLC_shuffle1.csv'']\<rparr>"
    by (simp add: is_DLC_output_def DLC_OUTPUT_SUFFIX_def path_suffix_def path_name_def)
  moreover have "\<not> is_DLC_output \<lparr>absolute = False, parts = [''videos'', ''x_shuffle1.h5'']\<rparr>"
    by (simp add: is_DLC_output_def DLC_OUTPUT_SUFFIX_def path_suffix_def path_name_def)
  moreover have "\<not> is_DLC_output \<lparr>absolute = False, parts = [''videos'', ''x_DLC_1.h5'']\<rparr>"
    by (simp add: is_DLC_output_def DLC_OUTPUT_SUFFIX_def path_suffix_def path_name_def)
  ultimately show ?thesis by blast
qed

text \<open>
  C10. The classifier looks at the final component only: two paths with the same file
  name are classified alike, whatever their parent directories.
\<close>

theorem is_DLC_output_name_only:
  "path_name p = path_name q \<Longrightarrow> is_DLC_output p = is_DLC_output q"
  by (simp add: is_DLC_output_def path_suffix_def)

theorem is_DLC_output_name_only_witness:
  "path_name \<lparr>absolute = True, parts = [''a'', ''m_DLC_shuffle2.h5'']\<rparr>
     = path_name \<lparr>absolute = False, parts = [''b'', ''c'', ''m_DLC_shuffle2.h5'']\<rparr>
   \<and> is_DLC_output \<lparr>absolute = True, parts = [''a'', ''m_DLC_shuffle2.h5'']\<rparr>
     = is_DLC_output \<lparr>absolute = False, parts = [''b'', ''c'', ''m_DLC_shuffle2.h5'']\<rparr>"
proof -
  have h: "path_name \<lparr>absolute = True, parts = [''a'', ''m_DLC_shuffle2.h5'']\<rparr>
     = path_name \<lparr>absolute = False, parts = [''b'', ''c'', ''m_DLC_shuffle2.h5'']\<rparr>"
    by (simp add: path_name_def)
  show ?thesis using h is_DLC_output_name_only [OF h] by simp
qed

section \<open>The CSV destination\<close>

lemma rfind_bounds: "- 1 \<le> rfind c s \<and> rfind c s < int (length s)"
  by (induction s) (auto simp: Let_def)

lemma rfind_append:
  "rfind c (xs @ ys) = (if 0 \<le> rfind c ys then int (length xs) + rfind c ys else rfind c xs)"
proof (induction xs)
  case Nil
  show ?case using rfind_bounds [of c ys] by auto
next
  case (Cons x xs)
  then show ?case using rfind_bounds [of c ys] rfind_bounds [of c xs] by (auto simp: Let_def)
qed

lemma name_stem_suffix: "path_name p = stem p @ path_suffix p"
  by (simp add: stem_def path_suffix_def Let_def)

lemma stem_nonempty: "path_name p \<noteq> [] \<Longrightarrow> stem p \<noteq> []"
  by (auto simp: stem_def Let_def)

lemma set_stem: "set (stem p) \<subseteq> set (path_name p)"
  by (auto simp: stem_def Let_def dest: in_set_takeD)

lemma path_name_valid:
  "valid_path p \<Longrightarrow> parts p \<noteq> [] \<Longrightarrow> path_name p \<noteq> [] \<and> CHR ''/'' \<notin> set (path_name p)"
  by (auto simp: valid_path_def path_name_def list_all_iff dest: last_in_set)

lemma rfind_csv: "rfind CHR ''.'' (st @ ''.csv'') = int (length st)"
  by (simp add: rfind_append)

lemma with_csv_name:
  assumes "parts d = bs @ [st @ ''.csv'']" and "st \<noteq> []"
  shows "path_name d = st @ ''.csv''" and "stem d = st" and "path_suffix d = ''.csv''"
proof -
  show n: "path_name d = st @ ''.csv''" using assms by (simp add: path_name_def)
  have "0 < int (length st)" using assms by simp
  then show "stem d = st" "path_suffix d = ''.csv''"
    by (simp_all add: stem_def path_suffix_def n rfind_csv Let_def)
qed

lemma csv_dstfile_eq:
  assumes "valid_path p" and "parts p \<noteq> []"
  shows "conversion_dstfile CSVConversion p = Inr (p\<lparr>parts := butlast (parts p) @ [stem p @ ''.csv'']\<rparr>)"
proof -
  have n: "path_name p \<noteq> []" "CHR ''/'' \<notin> set (path_name p)"
    using path_name_valid [OF assms] by simp_all
  have "CHR ''/'' \<notin> set (stem p)" using n set_stem [of p] by blast
  moreover have "stem p @ ''.csv'' \<noteq> ''.''" by simp
  ultimately show ?thesis using n by (simp add: with_name_def)
qed

text \<open>
  C8, as the code has it. For a source path that has a final component, the CSV
  destination is the source path with its extension replaced by \<^verbatim>\<open>.csv\<close>: the parent
  directory and the stem are those of the source, the suffix is \<^verbatim>\<open>.csv\<close>. (A path
  without a final component, such as the root, has no destination: see the
  counterexample.)
\<close>

theorem csv_dstfile_replaces_extension:
  assumes "valid_path p" and "parts p \<noteq> []"
  shows "\<exists>d. conversion_dstfile CSVConversion p = Inr d
           \<and> parent d = parent p \<and> absolute d = absolute p
           \<and> stem d = stem p \<and> path_suffix d = ''.csv''
           \<and> path_name d = stem p @ ''.csv''
           \<and> path_name p = stem p @ path_suffix p"
proof -
  let ?d = "p\<lparr>parts := butlast (parts p) @ [stem p @ ''.csv'']\<rparr>"
  have st: "stem p \<noteq> []"
    using path_name_valid [OF assms] stem_nonempty by blast
  have pd: "parts ?d = butlast (parts p) @ [stem p @ ''.csv'']" by simp
  have "conversion_dstfile CSVConversion p = Inr ?d" by (rule csv_dstfile_eq [OF assms])
  moreover have "parent ?d = parent p" by (simp add: parent_def)
  moreover have "absolute ?d = absolute p" by simp
  moreover have "stem ?d = stem p" by (rule with_csv_name(2) [OF pd st])
  moreover have "path_suffix ?d = ''.csv''" by (rule with_csv_name(3) [OF pd st])
  moreover have "path_name ?d = stem p @ ''.csv''" by (rule with_csv_name(1) [OF pd st])
  ultimately show ?thesis using name_stem_suffix [of p] by blast
qed

theorem csv_dstfile_replaces_extension_witness:
  "valid_path \<lparr>absolute = False, parts = [''videos'', ''m1_DLC_shuffle1.h5'']\<rparr>
   \<and> parts \<lparr>absolute = False, parts = [''videos'', ''m1_DLC_shuffle1.h5'']\<rparr> \<noteq> []
   \<and> (\<exists>d. conversion_dstfile CSVConversion
             \<lparr>absolute = False, parts = [''videos'', ''m1_DLC_shuffle1.h5'']\<rparr> = Inr d
          \<and> parent d = \<lparr>absolute = False, parts = [''videos'']\<rparr>
          \<and> path_name d = ''m1_DLC_shuffle1.csv'')"
proof -
  let ?p = "\<lparr>absolute = False, parts = [''videos'', ''m1_DLC_shuffle1.h5'']\<rparr>"
  have v: "valid_path ?p" by (simp add: valid_path_def)
  have n: "parts ?p \<noteq> []" by simp
  have s: "stem ?p = ''m1_DLC_shuffle1''" by (simp add: stem_def path_name_def)
  have q: "parent ?p = \<lparr>absolute = False, parts = [''videos'']\<rparr>" by (simp add: parent_def)
  show ?thesis using v n csv_dstfile_replaces_extension [OF v n] unfolding s q by auto
qed

theorem csv_dstfile_root_counterexample:
  "conversion_dstfile CSVConversion \<lparr>absolute = True, parts = []\<rparr>
     = Inl (ValueError (''PosixPath('' @ [CHR 0x27] @ ''/'' @ [CHR 0x27] @ '') has an empty name''))"
  by (simp add: with_name_def path_name_def path_str_def py_repr_def py_escape_def)

section \<open>convert: registry and skipping\<close>

lemma FORMATS_csv: "FORMATS fmt = Some c \<Longrightarrow> fmt = ''csv'' \<and> c = CSVConversion"
  by (auto simp: FORMATS_def split: if_splits)

lemma convert_registered:
  assumes "FORMATS fmt = Some c" and "conversion_dstfile c src = Inr d0"
  shows "convert pd src fmt dstdir ov w =
           (case try_block pd c src (rebase dstdir d0) ov w of
              (Inl e, w') \<Rightarrow>
                (Inr (failed (rebase dstdir d0) (''failed to convert: '' @ exn_str e)),
                 w'\<lparr>stderr := stderr w' @ [Traceback e]\<rparr>)
            | (Inr r, w') \<Rightarrow> (Inr r, w'))"
  using assms by (simp add: convert_def Let_def)

lemma try_block_skips:
  assumes "path_exists (filesys w) (parent dst)" and "path_exists (filesys w) dst"
  shows "try_block pd c src dst False w =
           (Inr (skipped dst ''the converted file already exists''),
            w\<lparr>calls := calls w @ [Exists (parent dst), Exists dst]\<rparr>)"
  using assms by (simp add: try_block_def exists_op_def called_def)

lemma convert_skips:
  assumes "FORMATS fmt = Some c" and "conversion_dstfile c src = Inr d0"
    and "path_exists (filesys w) (parent (rebase dstdir d0))"
    and "path_exists (filesys w) (rebase dstdir d0)"
  shows "convert pd src fmt dstdir False w =
           (Inr (skipped (rebase dstdir d0) ''the converted file already exists''),
            w\<lparr>calls := calls w @ [Exists (parent (rebase dstdir d0)), Exists (rebase dstdir d0)]\<rparr>)"
  by (simp add: convert_registered [OF assms(1,2)] try_block_skips [OF assms(3,4)])

lemma conversion_dstfile_src0: "conversion_dstfile CSVConversion src0 = Inr dst0"
  by (simp add: src0_def dst0_def with_name_def stem_def path_name_def)

text \<open>
  C2. With a registered format and \<open>overwrite\<close> false, when the destination and its
  parent directory exist, \<open>convert\<close> returns the Skipped result with the destination
  path and the message \<^verbatim>\<open>the converted file already exists\<close>. It only asked twice
  whether a path exists: no directory was made, nothing was loaded, nothing was
  written, nothing was printed, and the file system is as before.
\<close>

theorem convert_existing_destination_skipped:
  assumes "FORMATS fmt = Some c" and "conversion_dstfile c src = Inr d0"
    and "path_exists (filesys w) (parent (rebase dstdir d0))"
    and "path_exists (filesys w) (rebase dstdir d0)"
  shows "convert pd src fmt dstdir False w =
           (Inr \<lparr>dstfile = path_str (rebase dstdir d0), status = SKIPPED,
                 message = Some ''the converted file already exists''\<rparr>,
            \<lparr>filesys = filesys w, stdout = stdout w, stderr = stderr w,
             calls = calls w @ [Exists (parent (rebase dstdir d0)), Exists (rebase dstdir d0)]\<rparr>)"
  by (simp add: convert_skips [OF assms] skipped_def)

theorem convert_existing_destination_skipped_witness:
  "convert pd0 src0 ''csv'' None False w1 =
     (Inr \<lparr>dstfile = ''videos/m1_DLC_shuffle1.csv'', status = SKIPPED,
           message = Some ''the converted file already exists''\<rparr>,
      \<lparr>filesys = filesys w1, stdout = [], stderr = [], calls = [Exists videos, Exists dst0]\<rparr>)"
proof -
  have a: "FORMATS ''csv'' = Some CSVConversion" by (simp add: FORMATS_def)
  have r: "rebase None dst0 = dst0" by (simp add: rebase_def)
  have p: "parent dst0 = videos" by (simp add: parent_def dst0_def videos_def)
  have c: "path_exists (filesys w1) (parent (rebase None dst0))"
    unfolding r p by (simp add: path_exists_def is_dir_def w1_def)
  have d: "path_exists (filesys w1) (rebase None dst0)"
    unfolding r by (simp add: path_exists_def w1_def)
  have s: "path_str dst0 = ''videos/m1_DLC_shuffle1.csv''" by (simp add: path_str_def dst0_def)
  show ?thesis
    using convert_existing_destination_skipped [OF a conversion_dstfile_src0 c d, of pd0]
    unfolding r p s by (simp add: w1_def)
qed

text \<open>
  C4. A format identifier that is not in the registry makes \<open>convert\<close> raise
  \<^verbatim>\<open>KeyError\<close> (an exception, not a Result) with the world untouched: no call on the
  file system, nothing printed.
\<close>

theorem convert_unregistered_raises:
  "FORMATS fmt = None \<Longrightarrow>
     convert pd src fmt dstdir ov w =
       (Inl (KeyError (''file format not found: '' @ [CHR 0x27] @ fmt @ [CHR 0x27])), w)"
  by (simp add: convert_def)

theorem convert_unregistered_raises_witness:
  "FORMATS ''xml'' = None
   \<and> convert pd0 src0 ''xml'' (Some out_dir) False w0 =
       (Inl (KeyError (''file format not found: '' @ [CHR 0x27] @ ''xml'' @ [CHR 0x27])), w0)"
proof -
  have h: "FORMATS ''xml'' = None" by (simp add: FORMATS_def)
  show ?thesis using h convert_unregistered_raises [OF h, of pd0 src0 "Some out_dir" False w0] by simp
qed

section \<open>convert: what the try block returns and changes\<close>

lemma called_fields [simp]:
  "filesys (called k w) = filesys w" "stdout (called k w) = stdout w"
  "stderr (called k w) = stderr w" "calls (called k w) = calls w @ [k]"
  by (simp_all add: called_def)

lemma load_and_write_Inr:
  "load_and_write pd c src dst w = (Inr r, w') \<Longrightarrow> r = success dst"
  by (auto simp: load_and_write_def split: prod.splits sum.splits)

lemma try_block_Inr:
  "try_block pd c src dst ov w = (Inr r, w') \<Longrightarrow>
     r = success dst \<or> (\<not> ov \<and> r = skipped dst ''the converted file already exists'')"
  by (auto simp: try_block_def split: prod.splits sum.splits bool.splits if_splits
           dest: load_and_write_Inr)

lemma pd_read_hdf_world:
  "pd_read_hdf pd src w = (x, w') \<Longrightarrow> w' = called (ReadHdf src) w"
  by (auto simp: pd_read_hdf_def split: option.splits)

lemma tab_to_csv_world:
  "tab_to_csv pd tab dst w = (x, w') \<Longrightarrow>
     dirs (filesys w') = dirs (filesys w) \<and> stdout w' = stdout w \<and> stderr w' = stderr w
     \<and> calls w' = calls w @ [ToCsv dst]"
  by (auto simp: tab_to_csv_def called_def split: if_splits sum.splits)

lemma conversion_convert_world:
  "conversion_convert c pd tab dst w = (x, w') \<Longrightarrow>
     dirs (filesys w') = dirs (filesys w) \<and> stdout w' = stdout w \<and> stderr w' = stderr w
     \<and> set (calls w) \<subseteq> set (calls w')"
  by (cases c) (auto dest!: tab_to_csv_world)

lemma load_and_write_world:
  assumes "load_and_write pd c src dst w = (x, w')"
  shows "dirs (filesys w') = dirs (filesys w) \<and> stdout w' = stdout w \<and> stderr w' = stderr w
         \<and> set (calls w) \<subseteq> set (calls w')"
proof (cases "pd_read_hdf pd src w")
  case (Pair y w1)
  note rd = pd_read_hdf_world [OF Pair]
  show ?thesis
  proof (cases y)
    case (Inl e)
    with assms Pair rd show ?thesis by (auto simp: load_and_write_def called_def)
  next
    case (Inr tab)
    obtain z w2 where cv: "conversion_convert c pd tab dst w1 = (z, w2)" by force
    from assms Pair Inr cv have "w' = w2" by (auto simp: load_and_write_def split: sum.splits)
    with conversion_convert_world [OF cv] rd show ?thesis by (auto simp: called_def)
  qed
qed

lemma mkdir_parents_world:
  "mkdir_parents p w = (x, w') \<Longrightarrow>
     stdout w' = stdout w \<and> stderr w' = stderr w \<and> calls w' = calls w @ [Mkdir p]"
  by (auto simp: mkdir_parents_def called_def split: sum.splits)

lemma try_block_streams:
  assumes "try_block pd c src dst ov w = (x, w')"
  shows "stdout w' = stdout w \<and> stderr w' = stderr w"
proof (cases "path_exists (filesys w) (parent dst)")
  case False
  obtain y w2 where mk: "mkdir_parents (parent dst) (called (Exists (parent dst)) w) = (y, w2)"
    by force
  note m = mkdir_parents_world [OF mk]
  show ?thesis
  proof (cases y)
    case (Inl e)
    with assms False mk m show ?thesis
      by (auto simp: try_block_def exists_op_def called_def)
  next
    case (Inr u)
    with assms False mk have "load_and_write pd c src dst w2 = (x, w')"
      by (simp add: try_block_def exists_op_def)
    from load_and_write_world [OF this] m show ?thesis by (simp add: called_def)
  qed
next
  case True
  show ?thesis
  proof (cases "path_exists (filesys w) dst \<and> \<not> ov")
    case skip: True
    with assms True show ?thesis by (auto simp: try_block_def exists_op_def called_def)
  next
    case False
    with assms True
    have "load_and_write pd c src dst (called (Exists dst) (called (Exists (parent dst)) w)) = (x, w')"
      by (auto simp: try_block_def exists_op_def)
    from load_and_write_world [OF this] show ?thesis by (simp add: called_def)
  qed
qed

lemma convert_returns:
  assumes "FORMATS fmt = Some c" and "conversion_dstfile c src = Inr d0"
  shows "\<exists>r w'. convert pd src fmt dstdir ov w = (Inr r, w')
           \<and> dstfile r = path_str (rebase dstdir d0)
           \<and> (ov \<longrightarrow> status r \<noteq> SKIPPED)"
proof (cases "try_block pd c src (rebase dstdir d0) ov w")
  case (Pair x w1)
  show ?thesis
  proof (cases x)
    case (Inl e)
    with Pair show ?thesis
      by (simp add: convert_registered [OF assms] failed_def)
  next
    case (Inr r)
    with Pair try_block_Inr [of pd c src "rebase dstdir d0" ov w r w1] show ?thesis
      by (auto simp: convert_registered [OF assms] success_def skipped_def)
  qed
qed

text \<open>
  C9. With \<open>overwrite\<close> true, a result that \<open>convert\<close> returns is never Skipped: its
  status is Success or Failed.
\<close>

theorem convert_overwrite_never_skipped:
  "fst (convert pd src fmt dstdir True w) = Inr r \<Longrightarrow>
     status r \<noteq> SKIPPED \<and> (status r = SUCCESS \<or> status r = FAILED)"
proof -
  assume h: "fst (convert pd src fmt dstdir True w) = Inr r"
  show ?thesis
  proof (cases "FORMATS fmt")
    case None
    with h show ?thesis by (simp add: convert_def)
  next
    case (Some c)
    show ?thesis
    proof (cases "conversion_dstfile c src")
      case (Inl e)
      with h Some show ?thesis by (simp add: convert_def)
    next
      case (Inr d0)
      from convert_returns [OF Some Inr, of pd dstdir True w] h
      have "status r \<noteq> SKIPPED" by auto
      then show ?thesis by (cases "status r") simp_all
    qed
  qed
qed

section \<open>Creating the destination directory\<close>

lemma Nil_notin_prefixes: "[] \<notin> set (nonempty_prefixes xs)"
  by (cases xs) auto

lemma prefixes_eq_Nil: "nonempty_prefixes xs = [] \<longleftrightarrow> xs = []"
  by (cases xs) auto

lemma distinct_prefixes: "distinct (nonempty_prefixes xs)"
proof (induction xs)
  case Nil
  show ?case by simp
next
  case (Cons x xs)
  have "[x] \<notin> (#) x ` set (nonempty_prefixes xs)"
    using Nil_notin_prefixes [of xs] by auto
  moreover have "distinct (map ((#) x) (nonempty_prefixes xs))"
    using Cons.IH by (simp add: distinct_map)
  ultimately show ?case by simp
qed

lemma last_prefixes: "xs \<noteq> [] \<Longrightarrow> last (nonempty_prefixes xs) = xs"
proof (induction xs)
  case Nil
  then show ?case by simp
next
  case (Cons x xs)
  show ?case
  proof (cases xs)
    case Nil
    then show ?thesis by simp
  next
    case (Cons y ys)
    then have ne: "nonempty_prefixes xs \<noteq> []" by simp
    have "last (nonempty_prefixes xs) = xs" using Cons Cons.IH by simp
    with ne show ?thesis by (simp add: last_map)
  qed
qed

lemma length_prefixes: "ys \<in> set (nonempty_prefixes xs) \<Longrightarrow> length ys \<le> length xs"
  by (induction xs arbitrary: ys) auto

lemma ancestors_eq_Nil: "ancestors p = [] \<longleftrightarrow> parts p = []"
  by (simp add: ancestors_def prefixes_eq_Nil)

lemma last_ancestors: "parts p \<noteq> [] \<Longrightarrow> last (ancestors p) = p"
  by (simp add: ancestors_def last_map prefixes_eq_Nil last_prefixes)

lemma distinct_ancestors: "distinct (ancestors p)"
proof -
  have "inj (\<lambda>cs. p\<lparr>parts := cs\<rparr>)"
  proof (rule injI)
    fix a b assume "p\<lparr>parts := a\<rparr> = p\<lparr>parts := b\<rparr>"
    then have "parts (p\<lparr>parts := a\<rparr>) = parts (p\<lparr>parts := b\<rparr>)" by simp
    then show "a = b" by simp
  qed
  then have "inj_on (\<lambda>cs. p\<lparr>parts := cs\<rparr>) (set (nonempty_prefixes (parts p)))"
    by (rule inj_on_subset) simp
  then show ?thesis by (simp add: ancestors_def distinct_map distinct_prefixes)
qed

lemma ancestors_parts:
  "a \<in> set (ancestors p) \<Longrightarrow> parts a \<noteq> [] \<and> length (parts a) \<le> length (parts p)"
  using Nil_notin_prefixes [of "parts p"] by (auto simp: ancestors_def dest: length_prefixes)

lemma self_in_ancestors: "parts p \<noteq> [] \<Longrightarrow> p \<in> set (ancestors p)"
  using last_ancestors [of p] last_in_set [of "ancestors p"] by (simp add: ancestors_eq_Nil)

lemma mkdir_chain_ok:
  assumes "as \<noteq> []" and "\<forall>a\<in>set as. files f a = None" and "\<not> is_dir f (last as)"
    and "distinct as"
  shows "\<exists>f'. mkdir_chain p f as = Inr f' \<and> files f' = files f \<and> dirs f \<subseteq> dirs f'
           \<and> dirs f' \<subseteq> dirs f \<union> set as \<and> (\<forall>a\<in>set as. is_dir f' a)"
  using assms
proof (induction p f as rule: mkdir_chain.induct)
  case (1 p f)
  then show ?case by simp
next
  case (2 p f a)
  then show ?case by (auto simp: path_exists_def is_dir_def)
next
  case (3 p f a b rest)
  show ?case
  proof (cases "is_dir f a")
    case True
    have "\<exists>f'. mkdir_chain p f (b # rest) = Inr f' \<and> files f' = files f \<and> dirs f \<subseteq> dirs f'
            \<and> dirs f' \<subseteq> dirs f \<union> set (b # rest) \<and> (\<forall>a\<in>set (b # rest). is_dir f' a)"
      using "3.IH"(1) [OF True] "3.prems" by simp
    then obtain f' where f': "mkdir_chain p f (b # rest) = Inr f'" "files f' = files f"
      "dirs f \<subseteq> dirs f'" "dirs f' \<subseteq> dirs f \<union> set (b # rest)" "\<forall>a\<in>set (b # rest). is_dir f' a"
      by blast
    have "is_dir f' a" using True f'(3) by (auto simp: is_dir_def)
    with f' True show ?thesis by auto
  next
    case False
    let ?g = "f\<lparr>dirs := insert a (dirs f)\<rparr>"
    have nf: "\<not> files f a \<noteq> None" using "3.prems" by simp
    have la: "last (b # rest) \<noteq> a" using "3.prems"(4) last_in_set [of "b # rest"] by auto
    have "\<not> is_dir ?g (last (b # rest))"
      using "3.prems"(3) la by (auto simp: is_dir_def)
    moreover have "\<forall>x\<in>set (b # rest). files ?g x = None" using "3.prems"(2) by simp
    moreover have "distinct (b # rest)" using "3.prems"(4) by simp
    ultimately
    have "\<exists>f'. mkdir_chain p ?g (b # rest) = Inr f' \<and> files f' = files ?g \<and> dirs ?g \<subseteq> dirs f'
            \<and> dirs f' \<subseteq> dirs ?g \<union> set (b # rest) \<and> (\<forall>a\<in>set (b # rest). is_dir f' a)"
      using "3.IH"(2) [OF False nf] by blast
    then obtain f' where f': "mkdir_chain p ?g (b # rest) = Inr f'" "files f' = files ?g"
      "dirs ?g \<subseteq> dirs f'" "dirs f' \<subseteq> dirs ?g \<union> set (b # rest)" "\<forall>a\<in>set (b # rest). is_dir f' a"
      by blast
    have "is_dir f' a" using f'(3) by (auto simp: is_dir_def)
    moreover have "mkdir_chain p f (a # b # rest) = Inr f'" using False nf f'(1) by simp
    ultimately show ?thesis using f' by auto
  qed
qed

lemma mkdir_parents_ok:
  assumes "\<not> path_exists (filesys w) p" and "\<forall>a\<in>set (ancestors p). files (filesys w) a = None"
  shows "\<exists>w'. mkdir_parents p w = (Inr (), w') \<and> files (filesys w') = files (filesys w)
           \<and> dirs (filesys w) \<subseteq> dirs (filesys w')
           \<and> dirs (filesys w') \<subseteq> dirs (filesys w) \<union> set (ancestors p)
           \<and> (\<forall>a\<in>set (ancestors p). is_dir (filesys w') a)
           \<and> stdout w' = stdout w \<and> stderr w' = stderr w \<and> calls w' = calls w @ [Mkdir p]"
proof -
  have nd: "\<not> is_dir (filesys w) p" using assms(1) by (simp add: path_exists_def)
  then have ne: "parts p \<noteq> []" by (auto simp: is_dir_def)
  then have "ancestors p \<noteq> []" by (simp add: ancestors_eq_Nil)
  moreover have "\<not> is_dir (filesys w) (last (ancestors p))" using nd ne by (simp add: last_ancestors)
  ultimately obtain f' where f': "mkdir_chain p (filesys w) (ancestors p) = Inr f'"
    "files f' = files (filesys w)" "dirs (filesys w) \<subseteq> dirs f'"
    "dirs f' \<subseteq> dirs (filesys w) \<union> set (ancestors p)" "\<forall>a\<in>set (ancestors p). is_dir f' a"
    using mkdir_chain_ok [OF _ assms(2) _ distinct_ancestors, of p] by blast
  then show ?thesis by (simp add: mkdir_parents_def)
qed

section \<open>A run that succeeds\<close>

lemma load_and_write_success:
  assumes "files (filesys w) src = Some c0" and "read_hdf pd c0 = Inr tab"
    and "to_csv pd tab = Inr text"
    and "is_dir (filesys w) (parent dst)" and "\<not> is_dir (filesys w) dst"
  shows "load_and_write pd CSVConversion src dst w =
           (Inr (success dst),
            called (ToCsv dst) (called (ReadHdf src) w)
              \<lparr>filesys := (filesys w)\<lparr>files := (files (filesys w))(dst \<mapsto> text)\<rparr>\<rparr>)"
  using assms by (simp add: load_and_write_def pd_read_hdf_def tab_to_csv_def called_def)

lemma try_block_success:
  assumes "files (filesys w) src = Some c0" and "read_hdf pd c0 = Inr tab"
    and "to_csv pd tab = Inr text"
    and "parts dst \<noteq> []" and "\<not> is_dir (filesys w) dst"
    and "ov \<or> files (filesys w) dst = None"
    and "\<forall>a\<in>set (ancestors (parent dst)). files (filesys w) a = None"
  shows "\<exists>w'. try_block pd CSVConversion src dst ov w = (Inr (success dst), w')
           \<and> files (filesys w') = (files (filesys w))(dst \<mapsto> text)
           \<and> dirs (filesys w) \<subseteq> dirs (filesys w')
           \<and> is_dir (filesys w') (parent dst)"
proof (cases "path_exists (filesys w) (parent dst)")
  case True
  have pd: "is_dir (filesys w) (parent dst)"
  proof (cases "parts (parent dst) = []")
    case True
    then show ?thesis by (simp add: is_dir_def)
  next
    case False
    then have "files (filesys w) (parent dst) = None"
      using assms(7) self_in_ancestors by blast
    with True show ?thesis by (simp add: path_exists_def)
  qed
  have "\<not> (path_exists (filesys w) dst \<and> \<not> ov)"
    using assms(5,6) by (auto simp: path_exists_def)
  then have "try_block pd CSVConversion src dst ov w =
      load_and_write pd CSVConversion src dst (called (Exists dst) (called (Exists (parent dst)) w))"
    using True by (auto simp: try_block_def exists_op_def)
  also have "\<dots> = (Inr (success dst),
      called (ToCsv dst) (called (ReadHdf src) (called (Exists dst) (called (Exists (parent dst)) w)))
        \<lparr>filesys := (filesys w)\<lparr>files := (files (filesys w))(dst \<mapsto> text)\<rparr>\<rparr>)"
    using load_and_write_success [of "called (Exists dst) (called (Exists (parent dst)) w)"
        src c0 pd tab "text" dst] assms(1,2,3,5) pd by simp
  finally show ?thesis using pd by (auto simp: is_dir_def)
next
  case False
  let ?w1 = "called (Exists (parent dst)) w"
  have "\<not> path_exists (filesys ?w1) (parent dst)" using False by simp
  moreover have "\<forall>a\<in>set (ancestors (parent dst)). files (filesys ?w1) a = None"
    using assms(7) by simp
  ultimately obtain w2 where w2: "mkdir_parents (parent dst) ?w1 = (Inr (), w2)"
    "files (filesys w2) = files (filesys w)" "dirs (filesys w) \<subseteq> dirs (filesys w2)"
    "dirs (filesys w2) \<subseteq> dirs (filesys w) \<union> set (ancestors (parent dst))"
    "\<forall>a\<in>set (ancestors (parent dst)). is_dir (filesys w2) a"
    using mkdir_parents_ok [of ?w1 "parent dst"] by auto
  have pne: "parts (parent dst) \<noteq> []" using False by (auto simp: path_exists_def is_dir_def)
  have pd: "is_dir (filesys w2) (parent dst)" using w2(5) self_in_ancestors [OF pne] by blast
  have "dst \<notin> set (ancestors (parent dst))"
  proof
    assume "dst \<in> set (ancestors (parent dst))"
    then have "length (parts dst) \<le> length (parts (parent dst))" using ancestors_parts by blast
    moreover have "length (parts (parent dst)) = length (parts dst) - 1"
      by (simp add: parent_def)
    moreover have "0 < length (parts dst)" using assms(4) by simp
    ultimately show False by linarith
  qed
  then have nd: "\<not> is_dir (filesys w2) dst" using assms(4,5) w2(4) by (auto simp: is_dir_def)
  have "try_block pd CSVConversion src dst ov w = load_and_write pd CSVConversion src dst w2"
    using False w2(1) by (simp add: try_block_def exists_op_def)
  also have "\<dots> = (Inr (success dst),
      called (ToCsv dst) (called (ReadHdf src) w2)
        \<lparr>filesys := (filesys w2)\<lparr>files := (files (filesys w2))(dst \<mapsto> text)\<rparr>\<rparr>)"
    using load_and_write_success [of w2 src c0 pd tab "text" dst] assms(1,2,3) w2(2) pd nd by simp
  finally show ?thesis using pd w2(2,3) by (auto simp: is_dir_def)
qed

lemma dstfile_parts:
  "conversion_dstfile c src = Inr d0 \<Longrightarrow> parts d0 \<noteq> [] \<and> path_name d0 \<noteq> []"
  by (cases c) (auto simp: with_name_def path_name_def split: if_splits)

lemma rebase_parts: "parts d0 \<noteq> [] \<Longrightarrow> parts (rebase dstdir d0) \<noteq> []"
  by (cases dstdir) (simp_all add: rebase_def joinpath_def)

lemma convert_success:
  assumes "FORMATS fmt = Some c" and "conversion_dstfile c src = Inr d0"
    and "files (filesys w) src = Some c0" and "read_hdf pd c0 = Inr tab"
    and "to_csv pd tab = Inr text"
    and "\<not> is_dir (filesys w) (rebase dstdir d0)"
    and "ov \<or> files (filesys w) (rebase dstdir d0) = None"
    and "\<forall>a\<in>set (ancestors (parent (rebase dstdir d0))). files (filesys w) a = None"
  shows "\<exists>w'. convert pd src fmt dstdir ov w = (Inr (success (rebase dstdir d0)), w')
           \<and> files (filesys w') = (files (filesys w))(rebase dstdir d0 \<mapsto> text)
           \<and> dirs (filesys w) \<subseteq> dirs (filesys w')
           \<and> is_dir (filesys w') (parent (rebase dstdir d0))"
proof -
  have c: "c = CSVConversion" using FORMATS_csv [OF assms(1)] by simp
  have ne: "parts (rebase dstdir d0) \<noteq> []"
    using dstfile_parts [OF assms(2)] rebase_parts by blast
  obtain w' where "try_block pd CSVConversion src (rebase dstdir d0) ov w
      = (Inr (success (rebase dstdir d0)), w')"
    "files (filesys w') = (files (filesys w))(rebase dstdir d0 \<mapsto> text)"
    "dirs (filesys w) \<subseteq> dirs (filesys w')" "is_dir (filesys w') (parent (rebase dstdir d0))"
    using try_block_success [OF assms(3,4,5) ne assms(6,7,8)] by blast
  then show ?thesis using c by (simp add: convert_registered [OF assms(1,2)])
qed

lemma FORMATS_csv_registered: "FORMATS ''csv'' = Some CSVConversion"
  by (simp add: FORMATS_def)

lemma pd0_loads: "read_hdf pd0 ''t1'' = Inr ''t1''" "to_csv pd0 ''t1'' = Inr ''x,y;t1''"
  by (simp_all add: pd0_def)

lemma parent_dst0: "parent dst0 = videos"
  by (simp add: parent_def dst0_def videos_def)

lemma ancestors_videos: "ancestors videos = [videos]"
  by (simp add: ancestors_def videos_def)

theorem convert_overwrite_never_skipped_witness:
  "fst (convert pd0 src0 ''csv'' None True w1) = Inr (success dst0)
   \<and> status (success dst0) \<noteq> SKIPPED
   \<and> (status (success dst0) = SUCCESS \<or> status (success dst0) = FAILED)"
proof -
  have r: "rebase None dst0 = dst0" by (simp add: rebase_def)
  have a: "files (filesys w1) src0 = Some ''t1''"
    by (simp add: w1_def src0_def dst0_def)
  have b: "\<not> is_dir (filesys w1) (rebase None dst0)"
    unfolding r by (simp add: is_dir_def w1_def dst0_def videos_def)
  have c: "True \<or> files (filesys w1) (rebase None dst0) = None" by simp
  have d: "\<forall>a\<in>set (ancestors (parent (rebase None dst0))). files (filesys w1) a = None"
    unfolding r parent_dst0 ancestors_videos
    by (simp add: w1_def videos_def src0_def dst0_def)
  have h: "fst (convert pd0 src0 ''csv'' None True w1) = Inr (success dst0)"
    using convert_success [OF FORMATS_csv_registered conversion_dstfile_src0 a pd0_loads b c d]
    unfolding r by auto
  show ?thesis using h convert_overwrite_never_skipped [OF h] by simp
qed

section \<open>Running convert twice\<close>

text \<open>
  C3, as the code has it. Take a source that loads and serialises, a destination that
  does not exist yet, and no regular file in the place of the destination's directory
  or of one of its ancestors. Then \<open>convert\<close> with \<open>overwrite\<close> false returns Success,
  a second run with the same arguments returns Skipped, and the second run leaves the
  file system, so the content of the destination file, as the first run wrote it.
  (When the destination exists beforehand the first run is already Skipped: see the
  counterexample.)
\<close>

theorem convert_twice_success_then_skipped:
  assumes "FORMATS fmt = Some c" and "conversion_dstfile c src = Inr d0"
    and "files (filesys w) src = Some c0" and "read_hdf pd c0 = Inr tab"
    and "to_csv pd tab = Inr text"
    and "\<not> path_exists (filesys w) (rebase dstdir d0)"
    and "\<forall>a\<in>set (ancestors (parent (rebase dstdir d0))). files (filesys w) a = None"
  shows "\<exists>ra wa rb wb.
           convert pd src fmt dstdir False w = (Inr ra, wa) \<and> status ra = SUCCESS
           \<and> convert pd src fmt dstdir False wa = (Inr rb, wb) \<and> status rb = SKIPPED
           \<and> files (filesys wa) (rebase dstdir d0) = Some text
           \<and> filesys wb = filesys wa"
proof -
  let ?dst = "rebase dstdir d0"
  have nd: "\<not> is_dir (filesys w) ?dst" and nf: "False \<or> files (filesys w) ?dst = None"
    using assms(6) by (auto simp: path_exists_def)
  obtain wa where wa: "convert pd src fmt dstdir False w = (Inr (success ?dst), wa)"
    "files (filesys wa) = (files (filesys w))(?dst \<mapsto> text)"
    "is_dir (filesys wa) (parent ?dst)"
    using convert_success [OF assms(1,2,3,4,5) nd nf assms(7)] by blast
  have e1: "path_exists (filesys wa) (parent ?dst)" using wa(3) by (simp add: path_exists_def)
  have e2: "path_exists (filesys wa) ?dst" using wa(2) by (simp add: path_exists_def)
  note second = convert_skips [OF assms(1,2) e1 e2, of pd]
  have "status (success ?dst) = SUCCESS" by (simp add: success_def)
  moreover have "status (skipped ?dst ''the converted file already exists'') = SKIPPED"
    by (simp add: skipped_def)
  moreover have "files (filesys wa) ?dst = Some text" using wa(2) by simp
  moreover have "filesys (wa\<lparr>calls := calls wa @ [Exists (parent ?dst), Exists ?dst]\<rparr>) = filesys wa"
    by simp
  ultimately show ?thesis using wa(1) second by blast
qed

theorem convert_twice_success_then_skipped_witness:
  "\<not> path_exists (filesys w0) (rebase None dst0)
   \<and> (\<exists>ra wa rb wb.
         convert pd0 src0 ''csv'' None False w0 = (Inr ra, wa) \<and> status ra = SUCCESS
         \<and> convert pd0 src0 ''csv'' None False wa = (Inr rb, wb) \<and> status rb = SKIPPED
         \<and> files (filesys wa) dst0 = Some ''x,y;t1''
         \<and> filesys wb = filesys wa)"
proof -
  have r: "rebase None dst0 = dst0" by (simp add: rebase_def)
  have a: "files (filesys w0) src0 = Some ''t1''" by (simp add: w0_def)
  have b: "\<not> path_exists (filesys w0) (rebase None dst0)"
    unfolding r by (simp add: path_exists_def is_dir_def w0_def dst0_def videos_def src0_def)
  have d: "\<forall>a\<in>set (ancestors (parent (rebase None dst0))). files (filesys w0) a = None"
    unfolding r parent_dst0 ancestors_videos by (simp add: w0_def videos_def src0_def)
  show ?thesis
    using b convert_twice_success_then_skipped
      [OF FORMATS_csv_registered conversion_dstfile_src0 a pd0_loads b d]
    unfolding r by simp
qed

theorem convert_first_run_skipped_counterexample:
  "files (filesys w1) src0 = Some ''t1'' \<and> read_hdf pd0 ''t1'' = Inr ''t1''
   \<and> to_csv pd0 ''t1'' = Inr ''x,y;t1''
   \<and> fst (convert pd0 src0 ''csv'' None False w1) =
       Inr \<lparr>dstfile = ''videos/m1_DLC_shuffle1.csv'', status = SKIPPED,
             message = Some ''the converted file already exists''\<rparr>"
proof -
  have r: "rebase None dst0 = dst0" by (simp add: rebase_def)
  have c: "path_exists (filesys w1) (parent (rebase None dst0))"
    unfolding r parent_dst0 by (simp add: path_exists_def is_dir_def w1_def)
  have d: "path_exists (filesys w1) (rebase None dst0)"
    unfolding r by (simp add: path_exists_def w1_def)
  have s: "path_str dst0 = ''videos/m1_DLC_shuffle1.csv''" by (simp add: path_str_def dst0_def)
  have "files (filesys w1) src0 = Some ''t1''" by (simp add: w1_def src0_def dst0_def)
  moreover have "fst (convert pd0 src0 ''csv'' None False w1) =
       Inr \<lparr>dstfile = ''videos/m1_DLC_shuffle1.csv'', status = SKIPPED,
             message = Some ''the converted file already exists''\<rparr>"
    using convert_skips [OF FORMATS_csv_registered conversion_dstfile_src0 c d, of pd0]
    unfolding r by (simp add: skipped_def s)
  ultimately show ?thesis using pd0_loads by simp
qed

section \<open>The destination directory\<close>

lemma parent_joinpath: "parent (joinpath D n) = D"
  by (simp add: parent_def joinpath_def)





lemma ancestors_out_dir: "ancestors out_dir = [out_file, out_dir]"
  by (simp add: ancestors_def out_dir_def out_file_def)


section \<open>Exceptions inside and outside the try block\<close>

lemma convert_failed:
  assumes "FORMATS fmt = Some c" and "conversion_dstfile c src = Inr d0"
    and "try_block pd c src (rebase dstdir d0) ov w = (Inl e, wa)"
  shows "convert pd src fmt dstdir ov w =
           (Inr (failed (rebase dstdir d0) (''failed to convert: '' @ exn_str e)),
            wa\<lparr>stderr := stderr wa @ [Traceback e]\<rparr>)"
  using assms(3) by (simp add: convert_registered [OF assms(1,2)])

lemma try_block_mkdir_fails:
  assumes "\<not> path_exists (filesys w) (parent dst)"
    and "mkdir_chain (parent dst) (filesys w) (ancestors (parent dst)) = Inl e"
  shows "try_block pd c src dst ov w =
           (Inl e, called (Mkdir (parent dst)) (called (Exists (parent dst)) w))"
  using assms by (simp add: try_block_def exists_op_def mkdir_parents_def)

lemma try_block_load_fails:
  assumes "path_exists (filesys w) (parent dst)" and "ov \<or> \<not> path_exists (filesys w) dst"
    and "files (filesys w) src = Some c0" and "read_hdf pd c0 = Inl e"
  shows "try_block pd c src dst ov w =
           (Inl e, called (ReadHdf src) (called (Exists dst) (called (Exists (parent dst)) w)))"
  using assms by (auto simp: try_block_def exists_op_def load_and_write_def pd_read_hdf_def)

lemma try_block_serialize_fails:
  assumes "path_exists (filesys w) (parent dst)" and "ov \<or> \<not> path_exists (filesys w) dst"
    and "files (filesys w) src = Some c0" and "read_hdf pd c0 = Inr tab"
    and "is_dir (filesys w) (parent dst)" and "\<not> is_dir (filesys w) dst"
    and "to_csv pd tab = Inl e"
  shows "try_block pd CSVConversion src dst ov w =
           (Inl e, called (ToCsv dst) (called (ReadHdf src)
                     (called (Exists dst) (called (Exists (parent dst)) w))))"
  using assms
  by (auto simp: try_block_def exists_op_def load_and_write_def pd_read_hdf_def tab_to_csv_def)

lemma path_name_joinpath: "path_name (joinpath d n) = n"
  by (simp add: path_name_def joinpath_def)

lemma matched_has_dstfile:
  assumes "is_DLC_output p" and "CHR ''/'' \<notin> set (path_name p)"
  shows "\<exists>d. conversion_dstfile CSVConversion p = Inr d"
proof -
  have "path_suffix p = ''.h5''"
    using assms(1) by (auto simp: is_DLC_output_def DLC_OUTPUT_SUFFIX_def split: if_splits)
  then have n: "path_name p \<noteq> []" using name_stem_suffix [of p] by auto
  have "CHR ''/'' \<notin> set (stem p)" using assms(2) set_stem [of p] by blast
  then show ?thesis using n by (simp add: with_name_def)
qed

lemma convert_matched:
  assumes "FORMATS fmt = Some c" and "is_DLC_output (joinpath current n)"
    and "CHR ''/'' \<notin> set n"
  shows "\<exists>r w'. convert pd (joinpath current n) fmt dstdir ov w = (Inr r, w')"
proof -
  have c: "c = CSVConversion" using FORMATS_csv [OF assms(1)] by simp
  obtain d where "conversion_dstfile c (joinpath current n) = Inr d"
    using matched_has_dstfile [OF assms(2)] assms(3) c by (auto simp: path_name_joinpath)
  from convert_returns [OF assms(1) this] show ?thesis by blast
qed

lemma recurse_single_never_aborts:
  "FORMATS fmt = Some c \<Longrightarrow> (\<forall>t\<in>set tree. listing_ok t) \<Longrightarrow>
     fst (recurse_single pd fmt dstdir ov current tree w) = None"
proof (induction pd fmt dstdir ov current tree w rule: recurse_single.induct)
  case (1 pd fileformat dstdir overwrite current w)
  show ?case by simp
next
  case (2 pd fileformat dstdir overwrite current n cs rest w)
  have inner: "fst (recurse_single pd fileformat dstdir overwrite (joinpath current n) cs w) = None"
    using "2.IH"(1) "2.prems" by simp
  then obtain wa where wa:
    "recurse_single pd fileformat dstdir overwrite (joinpath current n) cs w = (None, wa)"
    by (cases "recurse_single pd fileformat dstdir overwrite (joinpath current n) cs w") simp
  have "fst (recurse_single pd fileformat dstdir overwrite current rest wa) = None"
    using "2.IH"(2) [OF wa [symmetric] refl] "2.prems" by simp
  then show ?case using wa by simp
next
  case (3 pd fileformat dstdir overwrite current n rest w)
  show ?case
  proof (cases "is_DLC_output (joinpath current n)")
    case True
    have "CHR ''/'' \<notin> set n" using "3.prems" by simp
    then obtain r wa where cv:
      "convert pd (joinpath current n) fileformat dstdir overwrite w = (Inr r, wa)"
      using convert_matched [OF _ True, of fileformat c pd dstdir overwrite w] "3.prems"
      by blast
    have "fst (recurse_single pd fileformat dstdir overwrite current rest
                 (report (joinpath current n) r wa)) = None"
      using "3.IH"(1) [OF True cv [symmetric] refl] "3.prems" by simp
    then show ?thesis using True cv by simp
  next
    case False
    then show ?thesis using "3.IH"(2) "3.prems" by simp
  qed
qed

text \<open>
  C5, as the code has it. With a registered format the walk never ends in an
  exception, whatever happens to the files it converts. For a source that has a
  destination, \<open>convert\<close> always returns a result: an exception raised while the
  destination's parent directory is created is inside the \<^verbatim>\<open>try\<close> block, and is
  captured into a Failed result with the message \<^verbatim>\<open>failed to convert: <exception>\<close>,
  exactly as an exception raised while the source is loaded or the table is
  serialised. (The claim that the failure to create the directory propagates out of
  \<open>convert\<close> is refuted by the counterexample.)
\<close>

theorem convert_captures_try_block_exceptions:
  assumes "FORMATS fmt = Some c" and "conversion_dstfile c src = Inr d0"
  shows "((\<forall>t\<in>set tree. listing_ok t) \<longrightarrow>
            fst (recurse_single pd fmt dstdir ov current tree wt) = None)
       \<and> (\<exists>r w'. convert pd src fmt dstdir ov w = (Inr r, w'))
       \<and> (\<not> path_exists (filesys w) (parent (rebase dstdir d0))
            \<and> mkdir_chain (parent (rebase dstdir d0)) (filesys w)
                 (ancestors (parent (rebase dstdir d0))) = Inl e1
          \<longrightarrow> fst (convert pd src fmt dstdir ov w) =
                Inr (failed (rebase dstdir d0) (''failed to convert: '' @ exn_str e1)))
       \<and> (path_exists (filesys w) (parent (rebase dstdir d0))
            \<and> (ov \<or> \<not> path_exists (filesys w) (rebase dstdir d0))
            \<and> files (filesys w) src = Some c2 \<and> read_hdf pd c2 = Inl e2
          \<longrightarrow> fst (convert pd src fmt dstdir ov w) =
                Inr (failed (rebase dstdir d0) (''failed to convert: '' @ exn_str e2)))
       \<and> (path_exists (filesys w) (parent (rebase dstdir d0))
            \<and> (ov \<or> \<not> path_exists (filesys w) (rebase dstdir d0))
            \<and> files (filesys w) src = Some c3 \<and> read_hdf pd c3 = Inr tab
            \<and> is_dir (filesys w) (parent (rebase dstdir d0))
            \<and> \<not> is_dir (filesys w) (rebase dstdir d0)
            \<and> to_csv pd tab = Inl e3
          \<longrightarrow> fst (convert pd src fmt dstdir ov w) =
                Inr (failed (rebase dstdir d0) (''failed to convert: '' @ exn_str e3)))"
proof -
  have c: "c = CSVConversion" using FORMATS_csv [OF assms(1)] by simp
  have walk: "(\<forall>t\<in>set tree. listing_ok t) \<longrightarrow>
      fst (recurse_single pd fmt dstdir ov current tree wt) = None"
    using recurse_single_never_aborts [OF assms(1)] by blast
  have ret: "\<exists>r w'. convert pd src fmt dstdir ov w = (Inr r, w')"
    using convert_returns [OF assms] by blast
  have mk: "fst (convert pd src fmt dstdir ov w) =
      Inr (failed (rebase dstdir d0) (''failed to convert: '' @ exn_str e1))"
    if "\<not> path_exists (filesys w) (parent (rebase dstdir d0))"
      and "mkdir_chain (parent (rebase dstdir d0)) (filesys w)
             (ancestors (parent (rebase dstdir d0))) = Inl e1"
    using convert_failed [OF assms try_block_mkdir_fails [OF that, of pd c src ov]] by simp
  have ld: "fst (convert pd src fmt dstdir ov w) =
      Inr (failed (rebase dstdir d0) (''failed to convert: '' @ exn_str e2))"
    if "path_exists (filesys w) (parent (rebase dstdir d0))"
      and "ov \<or> \<not> path_exists (filesys w) (rebase dstdir d0)"
      and "files (filesys w) src = Some c2" and "read_hdf pd c2 = Inl e2"
    using convert_failed [OF assms try_block_load_fails [OF that]] by simp
  have sr: "fst (convert pd src fmt dstdir ov w) =
      Inr (failed (rebase dstdir d0) (''failed to convert: '' @ exn_str e3))"
    if "path_exists (filesys w) (parent (rebase dstdir d0))"
      and "ov \<or> \<not> path_exists (filesys w) (rebase dstdir d0)"
      and "files (filesys w) src = Some c3" and "read_hdf pd c3 = Inr tab"
      and "is_dir (filesys w) (parent (rebase dstdir d0))"
      and "\<not> is_dir (filesys w) (rebase dstdir d0)"
      and "to_csv pd tab = Inl e3"
    using convert_failed [OF assms try_block_serialize_fails [OF that, folded c]] by simp
  show ?thesis using walk ret mk ld sr by blast
qed

lemma rebase_out_dir:
  "rebase (Some out_dir) dst0 = joinpath out_dir ''m1_DLC_shuffle1.csv''"
  by (simp add: rebase_def path_name_def dst0_def)

lemma out_dir_missing_w2: "\<not> path_exists (filesys w2) out_dir"
  by (simp add: path_exists_def is_dir_def w2_def out_dir_def videos_def src0_def out_file_def)

lemma mkdir_chain_w2:
  "mkdir_chain out_dir (filesys w2) (ancestors out_dir) =
     Inl (NotADirectoryError
            (''[Errno 20] Not a directory: '' @ [CHR 0x27] @ ''out/csv'' @ [CHR 0x27]))"
proof -
  have "\<not> is_dir (filesys w2) out_file"
    by (simp add: is_dir_def w2_def out_file_def videos_def)
  moreover have "files (filesys w2) out_file \<noteq> None" by (simp add: w2_def)
  moreover have "py_repr (path_str out_dir) = [CHR 0x27] @ ''out/csv'' @ [CHR 0x27]"
    by (simp add: py_repr_def py_escape_def path_str_def out_dir_def)
  ultimately show ?thesis unfolding ancestors_out_dir by simp
qed

lemma conversion_dstfile_src_bad: "conversion_dstfile CSVConversion src_bad = Inr dst_bad"
  by (simp add: src_bad_def dst_bad_def with_name_def stem_def path_name_def)

lemma parent_dst_bad: "parent dst_bad = videos"
  by (simp add: parent_def dst_bad_def videos_def)

lemma listing_ok_tree0: "\<forall>t\<in>set tree0. listing_ok t"
  by (simp add: tree0_def)

theorem convert_captures_try_block_exceptions_witness:
  "fst (recurse_single pd0 ''csv'' None False \<lparr>absolute = False, parts = []\<rparr> tree0 w3) = None
   \<and> fst (convert pd0 src0 ''csv'' (Some out_dir) False w2) =
       Inr (failed (joinpath out_dir ''m1_DLC_shuffle1.csv'')
              (''failed to convert: [Errno 20] Not a directory: ''
                 @ [CHR 0x27] @ ''out/csv'' @ [CHR 0x27]))
   \<and> fst (convert pd0 src_bad ''csv'' None False w3) =
       Inr (failed dst_bad ''failed to convert: not an HDF5 file'')
   \<and> fst (convert pd0 src0 ''csv'' None False w4) =
       Inr (failed dst0 ''failed to convert: cannot serialise'')"
proof -
  have r0: "rebase None dst0 = dst0" and rb: "rebase None dst_bad = dst_bad"
    by (simp_all add: rebase_def)
  have pj: "parent (joinpath out_dir ''m1_DLC_shuffle1.csv'') = out_dir"
    by (rule parent_joinpath)
  have walk:
    "fst (recurse_single pd0 ''csv'' None False \<lparr>absolute = False, parts = []\<rparr> tree0 w3) = None"
    using convert_captures_try_block_exceptions
      [OF FORMATS_csv_registered conversion_dstfile_src0,
        where tree = tree0 and pd = pd0 and dstdir = None and ov = False and wt = w3
          and current = "\<lparr>absolute = False, parts = []\<rparr>"]
      listing_ok_tree0 by blast
  have e1: "exn_str (NotADirectoryError
        (''[Errno 20] Not a directory: '' @ [CHR 0x27] @ ''out/csv'' @ [CHR 0x27]))
      = ''[Errno 20] Not a directory: '' @ [CHR 0x27] @ ''out/csv'' @ [CHR 0x27]"
    by simp
  have mk: "fst (convert pd0 src0 ''csv'' (Some out_dir) False w2) =
       Inr (failed (joinpath out_dir ''m1_DLC_shuffle1.csv'')
              (''failed to convert: [Errno 20] Not a directory: ''
                 @ [CHR 0x27] @ ''out/csv'' @ [CHR 0x27]))"
    using convert_captures_try_block_exceptions
      [OF FORMATS_csv_registered conversion_dstfile_src0,
        where w = w2 and pd = pd0 and dstdir = "Some out_dir" and ov = False
          and ?e1.0 = "NotADirectoryError
            (''[Errno 20] Not a directory: '' @ [CHR 0x27] @ ''out/csv'' @ [CHR 0x27])"]
      out_dir_missing_w2 mkdir_chain_w2
    unfolding rebase_out_dir pj e1 by simp
  have l1: "path_exists (filesys w3) (parent (rebase None dst_bad))"
    unfolding rb parent_dst_bad by (simp add: path_exists_def is_dir_def w3_def)
  have l2: "False \<or> \<not> path_exists (filesys w3) (rebase None dst_bad)"
    unfolding rb
    by (simp add: path_exists_def is_dir_def w3_def dst_bad_def videos_def src0_def src_bad_def)
  have l3: "files (filesys w3) src_bad = Some ''bad''" by (simp add: w3_def)
  have l4: "read_hdf pd0 ''bad'' = Inl (ExternalError ''not an HDF5 file'')"
    by (simp add: pd0_def)
  have ld: "fst (convert pd0 src_bad ''csv'' None False w3) =
       Inr (failed dst_bad ''failed to convert: not an HDF5 file'')"
    using convert_captures_try_block_exceptions
      [OF FORMATS_csv_registered conversion_dstfile_src_bad,
        where w = w3 and pd = pd0 and dstdir = None and ov = False
          and ?c2.0 = "''bad''" and ?e2.0 = "ExternalError ''not an HDF5 file''"]
      l1 l2 l3 l4
    unfolding rb by simp
  have s1: "path_exists (filesys w4) (parent (rebase None dst0))"
    unfolding r0 parent_dst0 by (simp add: path_exists_def is_dir_def w4_def)
  have s2: "False \<or> \<not> path_exists (filesys w4) (rebase None dst0)"
    unfolding r0
    by (simp add: path_exists_def is_dir_def w4_def dst0_def videos_def src0_def)
  have s3: "files (filesys w4) src0 = Some ''nan''" by (simp add: w4_def)
  have s4: "read_hdf pd0 ''nan'' = Inr ''nan''"
    "to_csv pd0 ''nan'' = Inl (ExternalError ''cannot serialise'')"
    by (simp_all add: pd0_def)
  have s5: "is_dir (filesys w4) (parent (rebase None dst0))"
    unfolding r0 parent_dst0 by (simp add: is_dir_def w4_def)
  have s6: "\<not> is_dir (filesys w4) (rebase None dst0)"
    unfolding r0 by (simp add: is_dir_def w4_def dst0_def videos_def)
  have sr: "fst (convert pd0 src0 ''csv'' None False w4) =
       Inr (failed dst0 ''failed to convert: cannot serialise'')"
    using convert_captures_try_block_exceptions
      [OF FORMATS_csv_registered conversion_dstfile_src0,
        where w = w4 and pd = pd0 and dstdir = None and ov = False
          and ?c3.0 = "''nan''" and tab = "''nan''" and ?e3.0 = "ExternalError ''cannot serialise''"]
      s1 s2 s3 s4 s5 s6
    unfolding r0 by simp
  show ?thesis using walk mk ld sr by simp
qed

theorem convert_mkdir_failure_captured_counterexample:
  "fst (mkdir_parents out_dir w2) =
     Inl (NotADirectoryError
            (''[Errno 20] Not a directory: '' @ [CHR 0x27] @ ''out/csv'' @ [CHR 0x27]))
   \<and> fst (convert pd0 src0 ''csv'' (Some out_dir) False w2) =
       Inr \<lparr>dstfile = ''out/csv/m1_DLC_shuffle1.csv'', status = FAILED,
             message = Some (''failed to convert: [Errno 20] Not a directory: ''
                               @ [CHR 0x27] @ ''out/csv'' @ [CHR 0x27])\<rparr>"
proof -
  have pj: "parent (joinpath out_dir ''m1_DLC_shuffle1.csv'') = out_dir"
    by (rule parent_joinpath)
  have n: "path_str (joinpath out_dir ''m1_DLC_shuffle1.csv'') = ''out/csv/m1_DLC_shuffle1.csv''"
    by (simp add: path_str_def joinpath_def out_dir_def)
  have a: "\<not> path_exists (filesys w2) (parent (joinpath out_dir ''m1_DLC_shuffle1.csv''))"
    unfolding pj by (rule out_dir_missing_w2)
  have b: "mkdir_chain (parent (joinpath out_dir ''m1_DLC_shuffle1.csv'')) (filesys w2)
             (ancestors (parent (joinpath out_dir ''m1_DLC_shuffle1.csv''))) =
           Inl (NotADirectoryError
                  (''[Errno 20] Not a directory: '' @ [CHR 0x27] @ ''out/csv'' @ [CHR 0x27]))"
    unfolding pj by (rule mkdir_chain_w2)
  have "fst (mkdir_parents out_dir w2) =
     Inl (NotADirectoryError
            (''[Errno 20] Not a directory: '' @ [CHR 0x27] @ ''out/csv'' @ [CHR 0x27]))"
    by (simp add: mkdir_parents_def mkdir_chain_w2)
  moreover have "fst (convert pd0 src0 ''csv'' (Some out_dir) False w2) =
       Inr \<lparr>dstfile = ''out/csv/m1_DLC_shuffle1.csv'', status = FAILED,
             message = Some (''failed to convert: [Errno 20] Not a directory: ''
                               @ [CHR 0x27] @ ''out/csv'' @ [CHR 0x27])\<rparr>"
    using convert_failed [OF FORMATS_csv_registered conversion_dstfile_src0,
        where dstdir = "Some out_dir", unfolded rebase_out_dir,
        OF try_block_mkdir_fails [OF a b, of pd0 CSVConversion src0 False]]
    by (simp add: failed_def n)
  ultimately show ?thesis by simp
qed

section \<open>What the walk prints\<close>

lemma convert_streams:
  assumes "convert pd src fmt dstdir ov w = (Inr r, wa)"
  shows "stdout wa = stdout w"
    and "filter is_Line (stderr wa) = filter is_Line (stderr w)"
    and "status r = SUCCESS \<Longrightarrow> stderr wa = stderr w \<and> message r = None"
    and "status r \<noteq> SUCCESS \<Longrightarrow> message r \<noteq> None"
proof -
  obtain c where c: "FORMATS fmt = Some c"
    using assms by (cases "FORMATS fmt") (auto simp: convert_def)
  obtain d0 where d0: "conversion_dstfile c src = Inr d0"
    using assms c by (cases "conversion_dstfile c src") (auto simp: convert_def)
  obtain x w1 where tb: "try_block pd c src (rebase dstdir d0) ov w = (x, w1)" by force
  note st = try_block_streams [OF tb]
  note cv = convert_registered [OF c d0, of pd dstdir ov w]
  have all: "stdout wa = stdout w \<and> filter is_Line (stderr wa) = filter is_Line (stderr w)
      \<and> (status r = SUCCESS \<longrightarrow> stderr wa = stderr w \<and> message r = None)
      \<and> (status r \<noteq> SUCCESS \<longrightarrow> message r \<noteq> None)"
  proof (cases x)
    case (Inl e)
    with assms cv tb st show ?thesis by (auto simp: failed_def)
  next
    case (Inr r')
    with assms cv tb have "r' = r" "w1 = wa" by simp_all
    with Inr tb try_block_Inr [of pd c src "rebase dstdir d0" ov w r wa] st show ?thesis
      by (auto simp: success_def skipped_def)
  qed
  from all show "stdout wa = stdout w" by blast
  from all show "filter is_Line (stderr wa) = filter is_Line (stderr w)" by blast
  from all show "status r = SUCCESS \<Longrightarrow> stderr wa = stderr w \<and> message r = None" by blast
  from all show "status r \<noteq> SUCCESS \<Longrightarrow> message r \<noteq> None" by blast
qed

lemma printed_lines_report:
  "printed_lines (report child r wa) = Suc (printed_lines wa)"
  by (simp add: printed_lines_def report_def)

lemma recurse_single_printed_lines:
  "FORMATS fmt = Some c \<Longrightarrow> (\<forall>t\<in>set tree. listing_ok t) \<Longrightarrow>
     printed_lines (snd (recurse_single pd fmt dstdir ov current tree w))
       = printed_lines w + matched_files current tree"
proof (induction pd fmt dstdir ov current tree w rule: recurse_single.induct)
  case (1 pd fileformat dstdir overwrite current w)
  show ?case by simp
next
  case (2 pd fileformat dstdir overwrite current n cs rest w)
  have "\<forall>t\<in>set cs. listing_ok t" using "2.prems"(2) by simp
  then have "fst (recurse_single pd fileformat dstdir overwrite (joinpath current n) cs w) = None"
    by (rule recurse_single_never_aborts [OF "2.prems"(1)])
  then obtain wa where wa:
    "recurse_single pd fileformat dstdir overwrite (joinpath current n) cs w = (None, wa)"
    by (cases "recurse_single pd fileformat dstdir overwrite (joinpath current n) cs w") simp
  have a: "printed_lines wa = printed_lines w + matched_files (joinpath current n) cs"
    using "2.IH"(1) "2.prems" wa by simp
  have "printed_lines (snd (recurse_single pd fileformat dstdir overwrite current rest wa))
      = printed_lines wa + matched_files current rest"
    using "2.IH"(2) [OF wa [symmetric] refl] "2.prems" by simp
  then show ?case using wa a by simp
next
  case (3 pd fileformat dstdir overwrite current n rest w)
  show ?case
  proof (cases "is_DLC_output (joinpath current n)")
    case True
    have "CHR ''/'' \<notin> set n" using "3.prems" by simp
    then obtain r wa where cv:
      "convert pd (joinpath current n) fileformat dstdir overwrite w = (Inr r, wa)"
      using convert_matched [OF _ True, of fileformat c pd dstdir overwrite w] "3.prems"
      by blast
    have "printed_lines wa = printed_lines w"
      using convert_streams(1,2) [OF cv] by (simp add: printed_lines_def)
    moreover have "printed_lines (snd (recurse_single pd fileformat dstdir overwrite current rest
                 (report (joinpath current n) r wa)))
        = printed_lines (report (joinpath current n) r wa) + matched_files current rest"
      using "3.IH"(1) [OF True cv [symmetric] refl] "3.prems" by simp
    ultimately show ?thesis using True cv by (simp add: printed_lines_report)
  next
    case False
    then show ?thesis using "3.IH"(2) "3.prems" by simp
  qed
qed

text \<open>
  C7. With a registered format, a regular file that the classifier matches gets
  exactly one line from the walk: when \<open>convert\<close> returns Success, the file's base name
  on standard output and nothing on standard error; otherwise nothing on standard
  output and the line \<^verbatim>\<open>***<message>: <base name>\<close> at the end of standard error
  (after the traceback that \<open>convert\<close> itself printed for a Failed result, which is not
  one of the walk's lines). A file that is not matched changes nothing. Over a whole
  tree, the number of lines printed is the number of matched files.
\<close>

theorem recurse_single_one_line_per_match:
  assumes "FORMATS fmt = Some c"
  shows "(is_DLC_output (joinpath current n) \<and> CHR ''/'' \<notin> set n \<longrightarrow>
            (\<exists>r wa wb.
               convert pd (joinpath current n) fmt dstdir ov w = (Inr r, wa)
               \<and> recurse_single pd fmt dstdir ov current (File n # rest) w
                   = recurse_single pd fmt dstdir ov current rest wb
               \<and> filesys wb = filesys wa
               \<and> (status r = SUCCESS \<longrightarrow> stdout wb = stdout w @ [n] \<and> stderr wb = stderr w)
               \<and> (status r \<noteq> SUCCESS \<longrightarrow>
                    stdout wb = stdout w
                    \<and> filter is_Line (stderr wa) = filter is_Line (stderr w)
                    \<and> (\<exists>m. message r = Some m
                          \<and> stderr wb = stderr wa @ [Line (''***'' @ m @ '': '' @ n)]))))
       \<and> (\<not> is_DLC_output (joinpath current n) \<longrightarrow>
            recurse_single pd fmt dstdir ov current (File n # rest) w
              = recurse_single pd fmt dstdir ov current rest w)
       \<and> ((\<forall>t\<in>set tree. listing_ok t) \<longrightarrow>
            printed_lines (snd (recurse_single pd fmt dstdir ov current tree w))
              = printed_lines w + matched_files current tree)"
proof -
  have one: "\<exists>r wa wb.
               convert pd (joinpath current n) fmt dstdir ov w = (Inr r, wa)
               \<and> recurse_single pd fmt dstdir ov current (File n # rest) w
                   = recurse_single pd fmt dstdir ov current rest wb
               \<and> filesys wb = filesys wa
               \<and> (status r = SUCCESS \<longrightarrow> stdout wb = stdout w @ [n] \<and> stderr wb = stderr w)
               \<and> (status r \<noteq> SUCCESS \<longrightarrow>
                    stdout wb = stdout w
                    \<and> filter is_Line (stderr wa) = filter is_Line (stderr w)
                    \<and> (\<exists>m. message r = Some m
                          \<and> stderr wb = stderr wa @ [Line (''***'' @ m @ '': '' @ n)]))"
    if m: "is_DLC_output (joinpath current n)" and sep: "CHR ''/'' \<notin> set n"
  proof -
    obtain r wa where cv: "convert pd (joinpath current n) fmt dstdir ov w = (Inr r, wa)"
      using convert_matched [OF assms m sep] by blast
    let ?wb = "report (joinpath current n) r wa"
    note cs = convert_streams [OF cv]
    have step: "recurse_single pd fmt dstdir ov current (File n # rest) w
        = recurse_single pd fmt dstdir ov current rest ?wb"
      using m cv by simp
    have fs: "filesys ?wb = filesys wa" by (simp add: report_def)
    have ok: "status r = SUCCESS \<longrightarrow> stdout ?wb = stdout w @ [n] \<and> stderr ?wb = stderr w"
      using cs(1,3) by (auto simp: report_def is_success_def path_name_joinpath)
    have ko: "status r \<noteq> SUCCESS \<longrightarrow>
        stdout ?wb = stdout w \<and> filter is_Line (stderr wa) = filter is_Line (stderr w)
        \<and> (\<exists>m. message r = Some m \<and> stderr ?wb = stderr wa @ [Line (''***'' @ m @ '': '' @ n)])"
      using cs(1,2,4) by (auto simp: report_def is_success_def path_name_joinpath)
    show ?thesis using cv step fs ok ko by blast
  qed
  have none: "recurse_single pd fmt dstdir ov current (File n # rest) w
      = recurse_single pd fmt dstdir ov current rest w"
    if "\<not> is_DLC_output (joinpath current n)"
    using that by simp
  have count: "printed_lines (snd (recurse_single pd fmt dstdir ov current tree w))
      = printed_lines w + matched_files current tree"
    if "\<forall>t\<in>set tree. listing_ok t"
    using recurse_single_printed_lines [OF assms that] .
  show ?thesis using one none count by blast
qed

lemma joinpath_videos: "joinpath videos ''m1_DLC_shuffle1.h5'' = src0"
  by (simp add: joinpath_def videos_def src0_def)

lemma src0_matched: "is_DLC_output src0"
  by (simp add: is_DLC_output_def DLC_OUTPUT_SUFFIX_def path_suffix_def path_name_def src0_def)

lemma matched_files_tree0: "matched_files \<lparr>absolute = False, parts = []\<rparr> tree0 = 2"
  by (simp add: tree0_def joinpath_def is_DLC_output_def DLC_OUTPUT_SUFFIX_def
        path_suffix_def path_name_def)

theorem recurse_single_one_line_per_match_witness:
  "(\<exists>wb. recurse_single pd0 ''csv'' None False videos [File ''m1_DLC_shuffle1.h5''] w0 = (None, wb)
          \<and> stdout wb = [''m1_DLC_shuffle1.h5''] \<and> stderr wb = [])
   \<and> recurse_single pd0 ''csv'' None False videos [File ''m1.mp4''] w0 = (None, w0)
   \<and> printed_lines
        (snd (recurse_single pd0 ''csv'' None False \<lparr>absolute = False, parts = []\<rparr> tree0 w3)) = 2"
proof -
  note T = recurse_single_one_line_per_match [OF FORMATS_csv_registered]
  have r: "rebase None dst0 = dst0" by (simp add: rebase_def)
  have a: "files (filesys w0) src0 = Some ''t1''" by (simp add: w0_def)
  have b: "\<not> is_dir (filesys w0) (rebase None dst0)"
    unfolding r by (simp add: is_dir_def w0_def dst0_def videos_def)
  have c: "False \<or> files (filesys w0) (rebase None dst0) = None"
    unfolding r by (simp add: w0_def dst0_def src0_def)
  have d: "\<forall>a\<in>set (ancestors (parent (rebase None dst0))). files (filesys w0) a = None"
    unfolding r parent_dst0 ancestors_videos by (simp add: w0_def videos_def src0_def)
  obtain w' where cv: "convert pd0 src0 ''csv'' None False w0 = (Inr (success dst0), w')"
    using convert_success [OF FORMATS_csv_registered conversion_dstfile_src0 a pd0_loads b c d]
    unfolding r by blast
  have m: "is_DLC_output (joinpath videos ''m1_DLC_shuffle1.h5'')
      \<and> CHR ''/'' \<notin> set ''m1_DLC_shuffle1.h5''"
    unfolding joinpath_videos using src0_matched by simp
  obtain ra wa wb where
    one: "convert pd0 (joinpath videos ''m1_DLC_shuffle1.h5'') ''csv'' None False w0 = (Inr ra, wa)"
      "recurse_single pd0 ''csv'' None False videos (File ''m1_DLC_shuffle1.h5'' # []) w0
         = recurse_single pd0 ''csv'' None False videos [] wb"
      "status ra = SUCCESS \<longrightarrow> stdout wb = stdout w0 @ [''m1_DLC_shuffle1.h5''] \<and> stderr wb = stderr w0"
    using T [where current = videos and n = "''m1_DLC_shuffle1.h5''" and pd = pd0
        and dstdir = None and ov = False and w = w0 and rest = "[]"] m
    by blast
  have "ra = success dst0" using one(1) cv unfolding joinpath_videos by simp
  then have "status ra = SUCCESS" by (simp add: success_def)
  then have first: "\<exists>wb. recurse_single pd0 ''csv'' None False videos [File ''m1_DLC_shuffle1.h5''] w0
        = (None, wb) \<and> stdout wb = [''m1_DLC_shuffle1.h5''] \<and> stderr wb = []"
    using one(2,3) by (simp add: w0_def)
  have nm: "\<not> is_DLC_output (joinpath videos ''m1.mp4'')"
    by (simp add: is_DLC_output_def DLC_OUTPUT_SUFFIX_def path_suffix_def path_name_def
          joinpath_def videos_def)
  have second: "recurse_single pd0 ''csv'' None False videos [File ''m1.mp4''] w0 = (None, w0)"
    using T [where current = videos and n = "''m1.mp4''" and pd = pd0
        and dstdir = None and ov = False and w = w0 and rest = "[]"] nm
    by simp
  have "printed_lines w3 = 0" by (simp add: printed_lines_def w3_def)
  then have third: "printed_lines
      (snd (recurse_single pd0 ''csv'' None False \<lparr>absolute = False, parts = []\<rparr> tree0 w3)) = 2"
    using T [where tree = tree0 and pd = pd0 and dstdir = None and ov = False and w = w3
        and current = "\<lparr>absolute = False, parts = []\<rparr>"] listing_ok_tree0 matched_files_tree0
    by simp
  show ?thesis using first second third by blast
qed

end
